theory Spec2Isabelle
  imports Main "HOL-Library.Sublist"
begin

section \<open>The session connection of cppcouch (Couch/connection.h)\<close>

text \<open>
  The class \<open>connection\<close> talks to a CouchDB server through a shared \<open>communication\<close>
  object. The model keeps the object's fields in records, turns every C++ exception into
  the left summand of a result, and threads the connection through every call, so that
  the state a throwing call leaves behind is visible.
\<close>

subsection \<open>JSON values\<close>

text \<open>
  \<open>json::value\<close> comes from a header outside Couch/connection.h. The model is a tagged
  union with the shapes the connection inspects. An accessor applied to a value of another
  shape yields that shape's default (the empty string, \<open>false\<close>, the empty array), and
  \<open>operator[]\<close> on a missing key yields null. Floating point numbers never reach the
  connection's decisions and are left out.
\<close>

datatype json =
    JNull
  | JBool bool
  | JInt int
  | JString string
  | JArray "json list"
  | JObject "(string \<times> json) list"

fun is_object :: "json \<Rightarrow> bool" where
  "is_object (JObject _) = True"
| "is_object _ = False"

fun is_array :: "json \<Rightarrow> bool" where
  "is_array (JArray _) = True"
| "is_array _ = False"

fun is_string :: "json \<Rightarrow> bool" where
  "is_string (JString _) = True"
| "is_string _ = False"

fun get_string :: "json \<Rightarrow> string" where
  "get_string (JString s) = s"
| "get_string _ = []"

fun get_bool :: "json \<Rightarrow> bool" where
  "get_bool (JBool b) = b"
| "get_bool _ = False"

fun get_array :: "json \<Rightarrow> json list" where
  "get_array (JArray xs) = xs"
| "get_array _ = []"

fun is_member :: "json \<Rightarrow> string \<Rightarrow> bool" where
  "is_member (JObject kvs) k = (map_of kvs k \<noteq> None)"
| "is_member _ k = False"

text \<open>\<open>response["key"]\<close>.\<close>

fun member :: "json \<Rightarrow> string \<Rightarrow> json" where
  "member (JObject kvs) k = (case map_of kvs k of Some v \<Rightarrow> v | None \<Rightarrow> JNull)"
| "member _ k = JNull"

subsection \<open>std::string operations used by the connection\<close>

text \<open>
  \<open>s.find(ch)\<close> and \<open>s.find(str)\<close>: the index of the first occurrence, \<open>None\<close> for
  \<open>npos\<close>.
\<close>

fun find_char_from :: "nat \<Rightarrow> string \<Rightarrow> char \<Rightarrow> nat option" where
  "find_char_from i [] ch = None"
| "find_char_from i (x # xs) ch = (if x = ch then Some i else find_char_from (Suc i) xs ch)"

definition find_char :: "string \<Rightarrow> char \<Rightarrow> nat option" where
  "find_char s ch = find_char_from 0 s ch"

fun find_str_from :: "nat \<Rightarrow> string \<Rightarrow> string \<Rightarrow> nat option" where
  "find_str_from i [] p = (if p = [] then Some i else None)"
| "find_str_from i (x # xs) p =
     (if prefix p (x # xs) then Some i else find_str_from (Suc i) xs p)"

definition find_str :: "string \<Rightarrow> string \<Rightarrow> nat option" where
  "find_str s p = find_str_from 0 s p"

text \<open>\<open>s.erase(pos)\<close> and \<open>s.erase(0, n)\<close>.\<close>

definition erase_from :: "string \<Rightarrow> nat \<Rightarrow> string" where
  "erase_from s pos = take pos s"

definition erase_front :: "string \<Rightarrow> nat \<Rightarrow> string" where
  "erase_front s n = drop n s"

subsection \<open>Errors, requests and the communication object\<close>

text \<open>
  The kinds of \<open>error\<close> the connection names, and \<open>other_error\<close> for every kind that only
  the transport raises.
\<close>

datatype error_type =
    bad_response
  | database_unavailable
  | database_not_creatable
  | database_not_deletable
  | content_not_found
  | other_error nat

record error =
  etype :: error_type
  reason :: string

definition error1 :: "error_type \<Rightarrow> error" where
  "error1 t = \<lparr>etype = t, reason = []\<rparr>"

definition error2 :: "error_type \<Rightarrow> string \<Rightarrow> error" where
  "error2 t msg = \<lparr>etype = t, reason = msg\<rparr>"

datatype auth_type = auth_none | auth_basic | auth_cookie

record request =
  req_path :: string
  req_method :: string
  req_body :: string
  req_root :: bool

text \<open>
  What the object has done so far: every request with its outcome, and every
  \<open>database\<close> object it has constructed, in order.
\<close>

datatype event =
    Sent request "error + json"
  | SentRaw request "error + string"
  | Constructed string

record communication =
  auth :: auth_type
  username :: string
  password :: string
  trace :: "event list"

text \<open>
  The collaborators that are not in Couch/connection.h are parameters: the server's
  answer to \<open>get_data\<close> and \<open>get_raw_data\<close> (it may depend on the communication object,
  that is on the auth mode, the user and everything sent before), \<open>url_encode\<close> and
  \<open>json_to_string\<close>.
\<close>

record transport =
  respond :: "communication \<Rightarrow> request \<Rightarrow> error + json"
  respond_raw :: "communication \<Rightarrow> request \<Rightarrow> error + string"
  url_encode :: "string \<Rightarrow> string"
  json_to_string :: "json \<Rightarrow> string"

record connection =
  comm :: communication
  couchDBVersion :: string
  couchdb_major :: int

definition record_event :: "event \<Rightarrow> connection \<Rightarrow> connection" where
  "record_event ev c = c\<lparr>comm := (comm c)\<lparr>trace := trace (comm c) @ [ev]\<rparr>\<rparr>"

definition set_auth_type :: "auth_type \<Rightarrow> connection \<Rightarrow> connection" where
  "set_auth_type t c = c\<lparr>comm := (comm c)\<lparr>auth := t\<rparr>\<rparr>"

definition mk_request :: "string \<Rightarrow> string \<Rightarrow> string \<Rightarrow> bool \<Rightarrow> request" where
  "mk_request path method body root =
     \<lparr>req_path = path, req_method = method, req_body = body, req_root = root\<rparr>"

text \<open>
  \<open>comm->get_data(path, method, body, root)\<close>: returns the JSON answer or throws. It
  leaves the auth mode and the user as they are. Where the source leaves arguments out,
  the model writes the defaults: \<open>GET\<close>, the empty body, and \<open>false\<close> for the root flag.
\<close>

definition get_data ::
  "transport \<Rightarrow> string \<Rightarrow> string \<Rightarrow> string \<Rightarrow> bool \<Rightarrow> connection \<Rightarrow> (error + json) \<times> connection"
where
  "get_data T path method body root c =
     (let rq = mk_request path method body root;
          r = respond T (comm c) rq
      in (r, record_event (Sent rq r) c))"

text \<open>\<open>comm->get_raw_data(path, method)\<close>.\<close>

definition get_raw_data ::
  "transport \<Rightarrow> string \<Rightarrow> string \<Rightarrow> connection \<Rightarrow> (error + string) \<times> connection"
where
  "get_raw_data T path method c =
     (let rq = mk_request path method [] False;
          r = respond_raw T (comm c) rq
      in (r, record_event (SentRaw rq r) c))"

subsection \<open>Listing databases\<close>

text \<open>The loops of \<open>list_db_names\<close> and \<open>list_all_db_names\<close>, with \<open>dbs\<close> as accumulator.\<close>

fun list_db_names_loop :: "json list \<Rightarrow> string list \<Rightarrow> string list" where
  "list_db_names_loop [] dbs = dbs"
| "list_db_names_loop (item # rest) dbs =
     list_db_names_loop rest
       (if find_char (get_string item) (CHR ''_'') \<noteq> Some 0
           \<and> find_str (get_string item) ''shards/'' \<noteq> Some 0
        then dbs @ [get_string item] else dbs)"

fun list_all_db_names_loop :: "json list \<Rightarrow> string list \<Rightarrow> string list" where
  "list_all_db_names_loop [] dbs = dbs"
| "list_all_db_names_loop (item # rest) dbs =
     list_all_db_names_loop rest (dbs @ [get_string item])"

definition list_db_names :: "transport \<Rightarrow> connection \<Rightarrow> (error + string list) \<times> connection" where
  "list_db_names T c =
     (case get_data T ''/_all_dbs'' ''GET'' [] False c of
        (Inl e, c1) \<Rightarrow> (Inl e, c1)
      | (Inr response, c1) \<Rightarrow>
          if \<not> is_array response then (Inl (error1 database_unavailable), c1)
          else (Inr (list_db_names_loop (get_array response) []), c1))"

definition list_all_db_names :: "transport \<Rightarrow> connection \<Rightarrow> (error + string list) \<times> connection" where
  "list_all_db_names T c =
     (case get_data T ''/_all_dbs'' ''GET'' [] False c of
        (Inl e, c1) \<Rightarrow> (Inl e, c1)
      | (Inr response, c1) \<Rightarrow>
          if \<not> is_array response then (Inl (error1 database_unavailable), c1)
          else (Inr (list_all_db_names_loop (get_array response) []), c1))"

subsection \<open>Listing users\<close>

fun list_user_names_loop :: "json list \<Rightarrow> string list \<Rightarrow> string list" where
  "list_user_names_loop [] list = list"
| "list_user_names_loop (row # rest) list =
     (let pfx = ''org.couchdb.user:'';
          name = get_string (member row ''id'')
      in if find_char name (CHR ''_'') = Some 0 then list_user_names_loop rest list
         else
           let name1 = (if find_str name pfx = Some 0 then erase_front name (length pfx) else name)
           in list_user_names_loop rest (if name1 \<noteq> [] then list @ [name1] else list))"

definition list_user_names :: "transport \<Rightarrow> connection \<Rightarrow> (error + string list) \<times> connection" where
  "list_user_names T c =
     (case get_data T ''/_users/_all_docs'' ''GET'' [] False c of
        (Inl e, c1) \<Rightarrow> (Inl e, c1)
      | (Inr response, c1) \<Rightarrow>
          if \<not> is_object response \<or> \<not> is_array (member response ''rows'')
          then (Inl (error1 bad_response), c1)
          else (Inr (list_user_names_loop (get_array (member response ''rows'')) []), c1))"

subsection \<open>Server version\<close>

text \<open>
  \<open>stream >> couchdb_major\<close> on a \<open>std::istringstream\<close> in the classic locale: leading
  white space is skipped, an optional sign and then decimal digits are read, and the
  stream fails when there is no digit or when the value does not fit an \<open>int\<close> (32 bits).
  \<open>None\<close> is the failed stream.
\<close>

definition isspace :: "char \<Rightarrow> bool" where
  "isspace ch = (ch \<in> set [CHR 0x20, CHR 0x09, CHR 0x0A, CHR 0x0B, CHR 0x0C, CHR 0x0D])"

definition isdigit :: "char \<Rightarrow> bool" where
  "isdigit ch = (48 \<le> (of_char ch :: nat) \<and> (of_char ch :: nat) \<le> 57)"

definition digits_value :: "string \<Rightarrow> nat" where
  "digits_value ds = foldl (\<lambda>a d. 10 * a + (of_char d - 48)) 0 ds"

definition extract_int :: "string \<Rightarrow> int option" where
  "extract_int s =
     (let s1 = dropWhile isspace s;
          neg = (case s1 of [] \<Rightarrow> False | x # _ \<Rightarrow> x = CHR ''-'');
          s2 = (case s1 of [] \<Rightarrow> [] | x # xs \<Rightarrow> if x = CHR ''-'' \<or> x = CHR ''+'' then xs else s1);
          ds = takeWhile isdigit s2;
          v = (if neg then - int (digits_value ds) else int (digits_value ds))
      in if ds = [] then None
         else if v < - 2147483648 \<or> 2147483647 < v then None
         else Some v)"

definition get_couchdb_info :: "transport \<Rightarrow> connection \<Rightarrow> (error + unit) \<times> connection" where
  "get_couchdb_info T c =
     (case get_data T [] ''GET'' [] True c of
        (Inl e, c1) \<Rightarrow> (Inl e, c1)
      | (Inr response, c1) \<Rightarrow>
          if \<not> is_object response then (Inl (error1 bad_response), c1)
          else
            let version = get_string (member response ''version'');
                copy = (case find_char version (CHR ''.'') of
                          None \<Rightarrow> version
                        | Some pos \<Rightarrow> erase_from version pos);
                major = (case extract_int copy of Some n \<Rightarrow> n | None \<Rightarrow> - 1)
            in (Inr (), c1\<lparr>couchDBVersion := version, couchdb_major := major\<rparr>))"


definition get_major_version :: "transport \<Rightarrow> connection \<Rightarrow> (error + int) \<times> connection" where
  "get_major_version T c =
     (case get_couchdb_info T c of
        (Inl e, c1) \<Rightarrow> (Inl e, c1)
      | (Inr _, c1) \<Rightarrow> (Inr (couchdb_major c1), c1))"

subsection \<open>Cluster and node connections\<close>

text \<open>
  \<open>cluster_connection\<close> and \<open>node_connection\<close> are declared only. A cluster connection is
  built from a port and the shared communication object, a node connection from a port, a
  node name and the communication object. The nodes a cluster connection iterates over,
  in its order, are a parameter.
\<close>

datatype cluster_connection = ClusterConnection nat

datatype node_connection = NodeConnection nat string

definition get_supports_clusters :: "transport \<Rightarrow> connection \<Rightarrow> (error + bool) \<times> connection" where
  "get_supports_clusters T c =
     (case get_major_version T c of
        (Inl e, c1) \<Rightarrow> (Inl e, c1)
      | (Inr major, c1) \<Rightarrow> (Inr (major \<ge> 2), c1))"

text \<open>\<open>None\<close> is the null pointer.\<close>

definition upgrade_to_cluster_connection ::
  "transport \<Rightarrow> nat \<Rightarrow> connection \<Rightarrow> (error + cluster_connection option) \<times> connection"
where
  "upgrade_to_cluster_connection T node_local_port c =
     (case get_supports_clusters T c of
        (Inl e, c1) \<Rightarrow> (Inl e, c1)
      | (Inr supported, c1) \<Rightarrow>
          if supported then (Inr (Some (ClusterConnection node_local_port)), c1)
          else (Inr None, c1))"

text \<open>
  \<open>*cluster_connection(port, comm).begin()\<close> is the first node. On a cluster without
  nodes the source dereferences the end iterator; the model marks that with \<open>None\<close>.
\<close>

definition upgrade_to_node_connection ::
  "(cluster_connection \<Rightarrow> node_connection list) \<Rightarrow> transport \<Rightarrow> nat \<Rightarrow> connection
     \<Rightarrow> (error + node_connection option) \<times> connection"
where
  "upgrade_to_node_connection nodes T node_local_port c =
     (case get_supports_clusters T c of
        (Inl e, c1) \<Rightarrow> (Inl e, c1)
      | (Inr supported, c1) \<Rightarrow>
          if \<not> supported then (Inr (Some (NodeConnection node_local_port [])), c1)
          else (case nodes (ClusterConnection node_local_port) of
                  [] \<Rightarrow> (Inr None, c1)
                | n # _ \<Rightarrow> (Inr (Some n), c1)))"

subsection \<open>Database lifecycle\<close>

text \<open>A \<open>database\<close> object is a name and the shared communication object.\<close>

datatype database = Database string

definition construct_database :: "string \<Rightarrow> connection \<Rightarrow> database \<times> connection" where
  "construct_database db c = (Database db, record_event (Constructed db) c)"

definition get_db :: "transport \<Rightarrow> string \<Rightarrow> connection \<Rightarrow> (error + database) \<times> connection" where
  "get_db T db c =
     (case get_raw_data T (''/'' @ url_encode T db) ''HEAD'' c of
        (Inl e, c1) \<Rightarrow> (Inl e, c1)
      | (Inr _, c1) \<Rightarrow> (case construct_database db c1 of (d, c2) \<Rightarrow> (Inr d, c2)))"

text \<open>
  Modelled from the spec: \<open>database::exists\<close> is in database.h, which is not part of the
  source at hand. It asks the server with a HEAD request on the database's path: true
  when the request succeeds, false when it fails with \<open>content_not_found\<close>, and any other
  error propagates.
\<close>

definition database_exists :: "transport \<Rightarrow> database \<Rightarrow> connection \<Rightarrow> (error + bool) \<times> connection" where
  "database_exists T d c =
     (case d of Database name \<Rightarrow>
        (case get_raw_data T (''/'' @ url_encode T name) ''HEAD'' c of
           (Inl e, c1) \<Rightarrow> if etype e = content_not_found then (Inr False, c1) else (Inl e, c1)
         | (Inr _, c1) \<Rightarrow> (Inr True, c1)))"

definition db_exists :: "transport \<Rightarrow> string \<Rightarrow> connection \<Rightarrow> (error + bool) \<times> connection" where
  "db_exists T db c =
     (case construct_database db c of (d, c1) \<Rightarrow> database_exists T d c1)"

definition create_db :: "transport \<Rightarrow> string \<Rightarrow> connection \<Rightarrow> (error + database) \<times> connection" where
  "create_db T db c =
     (case get_data T (''/'' @ url_encode T db) ''PUT'' [] False c of
        (Inl e, c1) \<Rightarrow> (Inl e, c1)
      | (Inr response, c1) \<Rightarrow>
          if \<not> is_object response then (Inl (error1 database_unavailable), c1)
          else if is_member response ''error''
          then (Inl (error2 database_not_creatable (get_string (member response ''reason''))), c1)
          else if \<not> get_bool (member response ''ok'')
          then (Inl (error1 database_not_creatable), c1)
          else (case construct_database db c1 of (d, c2) \<Rightarrow> (Inr d, c2)))"

definition remove_db :: "transport \<Rightarrow> string \<Rightarrow> connection \<Rightarrow> (error + unit) \<times> connection" where
  "remove_db T db c =
     (case get_data T (''/'' @ url_encode T db) ''DELETE'' [] False c of
        (Inl e, c1) \<Rightarrow> (Inl e, c1)
      | (Inr response, c1) \<Rightarrow>
          if \<not> is_object response then (Inl (error1 database_not_deletable), c1)
          else if is_member response ''error''
          then (Inl (error2 database_not_deletable (get_string (member response ''reason''))), c1)
          else if \<not> get_bool (member response ''ok'')
          then (Inl (error1 database_not_deletable), c1)
          else (Inr (), c1))"

text \<open>\<open>try {return get_db(db);} catch (error &e) {if (e.type() != content_not_found) throw;}\<close>\<close>

definition ensure_db_exists :: "transport \<Rightarrow> string \<Rightarrow> connection \<Rightarrow> (error + database) \<times> connection" where
  "ensure_db_exists T db c =
     (case get_db T db c of
        (Inr d, c1) \<Rightarrow> (Inr d, c1)
      | (Inl e, c1) \<Rightarrow>
          if etype e \<noteq> content_not_found then (Inl e, c1)
          else create_db T db c1)"

definition ensure_db_is_deleted :: "transport \<Rightarrow> string \<Rightarrow> connection \<Rightarrow> (error + unit) \<times> connection" where
  "ensure_db_is_deleted T db c =
     (case remove_db T db c of
        (Inr u, c1) \<Rightarrow> (Inr u, c1)
      | (Inl e, c1) \<Rightarrow>
          if etype e \<noteq> content_not_found \<and> etype e \<noteq> database_not_deletable then (Inl e, c1)
          else (Inr (), c1))"

text \<open>The loops of \<open>list_dbs\<close> and \<open>list_all_dbs\<close>: one \<open>database\<close> object per kept entry.\<close>

fun list_dbs_loop :: "json list \<Rightarrow> database list \<Rightarrow> connection \<Rightarrow> database list \<times> connection" where
  "list_dbs_loop [] dbs c = (dbs, c)"
| "list_dbs_loop (item # rest) dbs c =
     (if find_char (get_string item) (CHR ''_'') \<noteq> Some 0
         \<and> find_str (get_string item) ''shards/'' \<noteq> Some 0
      then (case construct_database (get_string item) c of
              (d, c1) \<Rightarrow> list_dbs_loop rest (dbs @ [d]) c1)
      else list_dbs_loop rest dbs c)"

fun list_all_dbs_loop :: "json list \<Rightarrow> database list \<Rightarrow> connection \<Rightarrow> database list \<times> connection" where
  "list_all_dbs_loop [] dbs c = (dbs, c)"
| "list_all_dbs_loop (item # rest) dbs c =
     (case construct_database (get_string item) c of
        (d, c1) \<Rightarrow> list_all_dbs_loop rest (dbs @ [d]) c1)"

definition list_dbs :: "transport \<Rightarrow> connection \<Rightarrow> (error + database list) \<times> connection" where
  "list_dbs T c =
     (case get_data T ''/_all_dbs'' ''GET'' [] False c of
        (Inl e, c1) \<Rightarrow> (Inl e, c1)
      | (Inr response, c1) \<Rightarrow>
          if \<not> is_array response then (Inl (error1 database_unavailable), c1)
          else (case list_dbs_loop (get_array response) [] c1 of (dbs, c2) \<Rightarrow> (Inr dbs, c2)))"

definition list_all_dbs :: "transport \<Rightarrow> connection \<Rightarrow> (error + database list) \<times> connection" where
  "list_all_dbs T c =
     (case get_data T ''/_all_dbs'' ''GET'' [] False c of
        (Inl e, c1) \<Rightarrow> (Inl e, c1)
      | (Inr response, c1) \<Rightarrow>
          if \<not> is_array response then (Inl (error1 database_unavailable), c1)
          else (case list_all_dbs_loop (get_array response) [] c1 of (dbs, c2) \<Rightarrow> (Inr dbs, c2)))"

subsection \<open>Authentication\<close>

definition logout :: "transport \<Rightarrow> connection \<Rightarrow> (error + unit) \<times> connection" where
  "logout T c =
     (case auth (comm c) of
        auth_cookie \<Rightarrow>
          (case get_data T ''/_session'' ''DELETE'' [] False c of
             (Inl e, c1) \<Rightarrow> (Inl e, c1)
           | (Inr _, c1) \<Rightarrow> (Inr (), c1))
      | _ \<Rightarrow> (Inr (), c))"

text \<open>
  \<open>login\<close>. The \<open>catch (error)\<close> around \<open>logout\<close> sets the mode back and rethrows; a
  throwing POST leaves the function at once.
\<close>

definition login :: "transport \<Rightarrow> connection \<Rightarrow> (error + unit) \<times> connection" where
  "login T c =
     (let t = auth (comm c)
      in if t = auth_basic \<or> t = auth_cookie then
           let obj = JObject [(''name'', JString (username (comm c))),
                              (''password'', JString (password (comm c)))];
               c1 = set_auth_type auth_basic c
           in (case get_data T ''/_session'' ''POST'' (json_to_string T obj) False c1 of
                 (Inl e, c2) \<Rightarrow> (Inl e, c2)
               | (Inr response, c2) \<Rightarrow>
                   if t = auth_basic then
                     (case logout T (set_auth_type auth_cookie c2) of
                        (Inl e, c3) \<Rightarrow> (Inl e, set_auth_type t c3)
                      | (Inr _, c3) \<Rightarrow> (Inr (), set_auth_type t c3))
                   else (Inr (), set_auth_type t c2))
         else (Inr (), c))"

subsection \<open>Which constructions of database objects follow a confirmation\<close>

text \<open>
  An event confirms that the database \<open>n\<close> exists when it is a HEAD request on its path
  that succeeded, a PUT on its path that the server answered with an object without
  \<open>error\<close> and with \<open>ok\<close> true, or a listing of \<open>/_all_dbs\<close> that has the string
  \<open>n\<close> among its entries.
\<close>

definition confirms :: "transport \<Rightarrow> string \<Rightarrow> event \<Rightarrow> bool" where
  "confirms T n ev =
     (case ev of
        SentRaw rq r \<Rightarrow>
          req_path rq = ''/'' @ url_encode T n \<and> req_method rq = ''HEAD''
          \<and> (case r of Inl _ \<Rightarrow> False | Inr _ \<Rightarrow> True)
      | Sent rq r \<Rightarrow>
          (case r of
             Inl _ \<Rightarrow> False
           | Inr j \<Rightarrow>
               (req_path rq = ''/'' @ url_encode T n \<and> req_method rq = ''PUT''
                \<and> is_object j \<and> \<not> is_member j ''error'' \<and> get_bool (member j ''ok''))
               \<or> (req_path rq = ''/_all_dbs'' \<and> req_method rq = ''GET''
                  \<and> is_array j \<and> JString n \<in> set (get_array j)))
      | Constructed _ \<Rightarrow> False)"

text \<open>
  \<open>constructions_confirmed T seen evs\<close>: going through \<open>evs\<close> after \<open>seen\<close>, every
  construction of a database object comes after an event that confirms its name.
\<close>

fun constructions_confirmed :: "transport \<Rightarrow> event list \<Rightarrow> event list \<Rightarrow> bool" where
  "constructions_confirmed T seen [] = True"
| "constructions_confirmed T seen (Constructed n # evs) =
     (list_ex (confirms T n) seen \<and> constructions_confirmed T (seen @ [Constructed n]) evs)"
| "constructions_confirmed T seen (ev # evs) = constructions_confirmed T (seen @ [ev]) evs"

subsection \<open>Requests and traces\<close>

text \<open>The requests the operations send, by name.\<close>

definition head_request :: "transport \<Rightarrow> string \<Rightarrow> request" where
  "head_request T db = mk_request (''/'' @ url_encode T db) ''HEAD'' [] False"

definition put_request :: "transport \<Rightarrow> string \<Rightarrow> request" where
  "put_request T db = mk_request (''/'' @ url_encode T db) ''PUT'' [] False"

definition delete_request :: "transport \<Rightarrow> string \<Rightarrow> request" where
  "delete_request T db = mk_request (''/'' @ url_encode T db) ''DELETE'' [] False"

text \<open>The events a call has added to the trace, and whether an event is a given request.\<close>

definition added :: "connection \<Rightarrow> connection \<Rightarrow> event list" where
  "added c c' = drop (length (trace (comm c))) (trace (comm c'))"

fun is_sent :: "request \<Rightarrow> event \<Rightarrow> bool" where
  "is_sent rq (Sent rq' _) = (rq' = rq)"
| "is_sent rq _ = False"

definition session_request :: "transport \<Rightarrow> connection \<Rightarrow> request" where
  "session_request T c =
     mk_request ''/_session'' ''POST''
       (json_to_string T (JObject [(''name'', JString (username (comm c))),
                                   (''password'', JString (password (comm c)))])) False"

definition all_dbs_request :: request where
  "all_dbs_request = mk_request ''/_all_dbs'' ''GET'' [] False"

definition all_docs_request :: request where
  "all_docs_request = mk_request ''/_users/_all_docs'' ''GET'' [] False"

text \<open>The answer to the listing request, when there is one, has strings as entries only.\<close>

definition listing_of_strings :: "transport \<Rightarrow> connection \<Rightarrow> bool" where
  "listing_of_strings T c =
     (case respond T (comm c) all_dbs_request of
        Inl _ \<Rightarrow> True
      | Inr response \<Rightarrow> list_all is_string (get_array response))"

subsection \<open>The major version, in the words of its description\<close>

text \<open>
  A string has a leading integer when, after white space and an optional sign, a decimal
  digit follows. The leading component of the version is what stands before the first
  dot, and the major version is the integer it starts with, or \<open>-1\<close>.
\<close>

definition has_leading_integer :: "string \<Rightarrow> bool" where
  "has_leading_integer s =
     (case dropWhile isspace s of
        [] \<Rightarrow> False
      | x # xs \<Rightarrow>
          if x = CHR ''-'' \<or> x = CHR ''+'' then (case xs of [] \<Rightarrow> False | y # _ \<Rightarrow> isdigit y)
          else isdigit x)"

text \<open>
  The same in full. A string is laid out as white space, an optional sign, decimal
  digits and a rest that does not go on with a digit; the digits denote a number in base
  ten, the first digit weighing most. The major version is that number with its sign when
  there are digits and the number fits 32 bits, and \<open>-1\<close> otherwise.
\<close>

definition white_space :: string where
  "white_space = [CHR 0x20, CHR 0x09, CHR 0x0A, CHR 0x0B, CHR 0x0C, CHR 0x0D]"

definition digit_index :: "char \<Rightarrow> nat" where
  "digit_index d = length (takeWhile (\<lambda>x. x \<noteq> d) ''0123456789'')"

fun decimal_value :: "string \<Rightarrow> nat" where
  "decimal_value [] = 0"
| "decimal_value (d # ds) = digit_index d * 10 ^ length ds + decimal_value ds"

definition integer_layout :: "string \<Rightarrow> string \<Rightarrow> string \<Rightarrow> string \<Rightarrow> string \<Rightarrow> bool" where
  "integer_layout s ws sg ds rest \<longleftrightarrow>
     s = ws @ sg @ ds @ rest
     \<and> list_all (\<lambda>ch. ch \<in> set white_space) ws
     \<and> (sg = [] \<or> sg = ''-'' \<or> sg = ''+'')
     \<and> list_all (\<lambda>ch. ch \<in> set ''0123456789'') ds
     \<and> (case rest of [] \<Rightarrow> True | x # _ \<Rightarrow> x \<notin> set ''0123456789'')
     \<and> (case sg @ ds @ rest of [] \<Rightarrow> True | x # _ \<Rightarrow> x \<notin> set white_space)
     \<and> (sg = [] \<and> ds = [] \<longrightarrow> (case rest of [] \<Rightarrow> True | x # _ \<Rightarrow> x \<noteq> CHR ''-'' \<and> x \<noteq> CHR ''+''))"

definition denoted_major :: "string \<Rightarrow> string \<Rightarrow> int" where
  "denoted_major sg ds =
     (if ds = [] then - 1
      else let v = (if sg = ''-'' then - int (decimal_value ds) else int (decimal_value ds))
           in if - 2147483648 \<le> v \<and> v \<le> 2147483647 then v else - 1)"

definition root_request :: request where
  "root_request = mk_request [] ''GET'' [] True"

definition leading_component :: "json \<Rightarrow> string" where
  "leading_component response =
     takeWhile (\<lambda>x. x \<noteq> CHR ''.'') (get_string (member response ''version''))"

definition major_of :: "json \<Rightarrow> int" where
  "major_of response =
     (case extract_int (leading_component response) of Some n \<Rightarrow> n | None \<Rightarrow> - 1)"

subsection \<open>The listing of users, in the words of its description\<close>

text \<open>Strip the prefix \<open>org.couchdb.user:\<close> from a document id when it is there.\<close>

definition normalize_user_id :: "string \<Rightarrow> string" where
  "normalize_user_id s =
     (if prefix ''org.couchdb.user:'' s then drop (length ''org.couchdb.user:'') s else s)"

subsection \<open>Example servers\<close>

text \<open>
  A server whose answers depend on the request alone, with the identity as URL encoding,
  and a connection that has not sent anything yet.
\<close>

definition fixed_server ::
  "(request \<Rightarrow> error + json) \<Rightarrow> (request \<Rightarrow> error + string) \<Rightarrow> transport"
where
  "fixed_server f g =
     \<lparr>respond = (\<lambda>_. f), respond_raw = (\<lambda>_. g), url_encode = (\<lambda>s. s),
      json_to_string = (\<lambda>_. [])\<rparr>"

definition fresh_connection :: "auth_type \<Rightarrow> connection" where
  "fresh_connection a =
     \<lparr>comm = \<lparr>auth = a, username = ''admin'', password = ''secret'', trace = []\<rparr>,
      couchDBVersion = [], couchdb_major = 0\<rparr>"

section \<open>Properties\<close>

subsection \<open>Facts about the string operations\<close>

lemma find_char_from_ge: "find_char_from i s ch = Some k \<Longrightarrow> i \<le> k"
  by (induction s arbitrary: i) (auto split: if_splits dest: Suc_leD)

lemma find_char_zero: "find_char s ch = Some 0 \<longleftrightarrow> prefix [ch] s"
proof (cases s)
  case Nil
  then show ?thesis by (simp add: find_char_def)
next
  case (Cons x xs)
  have "find_char_from (Suc 0) xs ch \<noteq> Some 0"
    using find_char_from_ge [of "Suc 0" xs ch 0] by auto
  with Cons show ?thesis by (auto simp: find_char_def)
qed

lemma find_str_from_ge: "find_str_from i s p = Some k \<Longrightarrow> i \<le> k"
  by (induction s arbitrary: i) (auto split: if_splits dest: Suc_leD)

lemma find_str_zero: "find_str s p = Some 0 \<longleftrightarrow> prefix p s"
proof (cases s)
  case Nil
  then show ?thesis by (simp add: find_str_def)
next
  case (Cons x xs)
  have "find_str_from (Suc 0) xs p \<noteq> Some 0"
    using find_str_from_ge [of "Suc 0" xs p 0] by auto
  with Cons show ?thesis by (auto simp: find_str_def)
qed

lemma list_db_names_loop_filter:
  "list_db_names_loop items dbs =
     dbs @ filter (\<lambda>s. \<not> prefix ''_'' s \<and> \<not> prefix ''shards/'' s) (map get_string items)"
  by (induction items arbitrary: dbs) (simp_all add: find_char_zero find_str_zero)

lemma list_all_db_names_loop_map:
  "list_all_db_names_loop items dbs = dbs @ map get_string items"
  by (induction items arbitrary: dbs) simp_all

subsection \<open>Listing database names\<close>

text \<open>
  C6. When the server answers the listing with a JSON array, \<open>list_all_db_names\<close>
  returns every entry in order and \<open>list_db_names\<close> returns, in order, exactly the
  entries that begin neither with \<open>_\<close> nor with \<open>shards/\<close>; when the answer is not an
  array both fail with \<open>database_unavailable\<close>.
\<close>

theorem list_db_names_filtered:
  assumes "respond T (comm c) all_dbs_request = Inr response"
  shows "fst (list_all_db_names T c) =
           (if is_array response then Inr (map get_string (get_array response))
            else Inl (error1 database_unavailable))
       \<and> fst (list_db_names T c) =
           (if is_array response
            then Inr (filter (\<lambda>s. \<not> prefix ''_'' s \<and> \<not> prefix ''shards/'' s)
                        (map get_string (get_array response)))
            else Inl (error1 database_unavailable))"
  using assms
  by (simp add: list_db_names_def list_all_db_names_def get_data_def Let_def all_dbs_request_def
      list_db_names_loop_filter list_all_db_names_loop_map)

text \<open>
  The server list \<open>["_replicator", "shards/x", "alpha", "beta"]\<close> is returned whole by
  \<open>list_all_db_names\<close> and as \<open>["alpha", "beta"]\<close> by \<open>list_db_names\<close>; an object as
  answer is refused.
\<close>

theorem list_db_names_filtered_witness:
  "fst (list_all_db_names
          (fixed_server (\<lambda>_. Inr (JArray [JString ''_replicator'', JString ''shards/x'',
                                            JString ''alpha'', JString ''beta''])) (\<lambda>_. Inr []))
          (fresh_connection auth_none))
     = Inr [''_replicator'', ''shards/x'', ''alpha'', ''beta'']
   \<and> fst (list_db_names
          (fixed_server (\<lambda>_. Inr (JArray [JString ''_replicator'', JString ''shards/x'',
                                            JString ''alpha'', JString ''beta''])) (\<lambda>_. Inr []))
          (fresh_connection auth_none))
     = Inr [''alpha'', ''beta'']
   \<and> fst (list_db_names (fixed_server (\<lambda>_. Inr (JObject [])) (\<lambda>_. Inr []))
            (fresh_connection auth_none))
     = Inl (error1 database_unavailable)"
  using list_db_names_filtered
          [of "fixed_server (\<lambda>_. Inr (JArray [JString ''_replicator'', JString ''shards/x'',
                                                 JString ''alpha'', JString ''beta''])) (\<lambda>_. Inr [])"
              "fresh_connection auth_none"
              "JArray [JString ''_replicator'', JString ''shards/x'', JString ''alpha'', JString ''beta'']"]
        list_db_names_filtered
          [of "fixed_server (\<lambda>_. Inr (JObject [])) (\<lambda>_. Inr [])" "fresh_connection auth_none"
              "JObject []"]
  by (simp add: fixed_server_def)

subsection \<open>Listing user names\<close>

lemma list_user_names_loop_filter:
  "list_user_names_loop rows list =
     list @ filter (\<lambda>s. s \<noteq> [])
              (map normalize_user_id
                 (filter (\<lambda>s. \<not> prefix ''_'' s) (map (\<lambda>row. get_string (member row ''id'')) rows)))"
  by (induction rows arbitrary: list)
     (simp_all add: Let_def find_char_zero find_str_zero normalize_user_id_def erase_front_def)

text \<open>
  C7. \<open>list_user_names\<close> fails with \<open>bad_response\<close> unless the answer is an object whose
  \<open>rows\<close> member is an array; otherwise it returns, in row order, the ids that do not
  begin with \<open>_\<close>, with the prefix \<open>org.couchdb.user:\<close> stripped when present, leaving
  out the names that are empty after that.
\<close>

theorem list_user_names_normalized:
  assumes "respond T (comm c) all_docs_request = Inr response"
  shows "fst (list_user_names T c) =
           (if is_object response \<and> is_array (member response ''rows'')
            then Inr (filter (\<lambda>s. s \<noteq> [])
                       (map normalize_user_id
                          (filter (\<lambda>s. \<not> prefix ''_'' s)
                             (map (\<lambda>row. get_string (member row ''id''))
                                (get_array (member response ''rows''))))))
            else Inl (error1 bad_response))"
  using assms
  by (simp add: list_user_names_def get_data_def Let_def all_docs_request_def
      list_user_names_loop_filter)

text \<open>
  The id \<open>org.couchdb.user:alice\<close> becomes \<open>alice\<close>, \<open>_design/x\<close> is left out, and so is
  the id that is the prefix alone; a \<open>rows\<close> member that is no array is refused.
\<close>

theorem list_user_names_normalized_witness:
  "fst (list_user_names
          (fixed_server
             (\<lambda>_. Inr (JObject [(''rows'',
                  JArray [JObject [(''id'', JString ''org.couchdb.user:alice'')],
                          JObject [(''id'', JString ''_design/x'')],
                          JObject [(''id'', JString ''org.couchdb.user:'')],
                          JObject [(''id'', JString ''bob'')]])]))
             (\<lambda>_. Inr []))
          (fresh_connection auth_none))
     = Inr [''alice'', ''bob'']
   \<and> fst (list_user_names (fixed_server (\<lambda>_. Inr (JObject [(''rows'', JNull)])) (\<lambda>_. Inr []))
            (fresh_connection auth_none))
     = Inl (error1 bad_response)"
  using list_user_names_normalized
          [of "fixed_server
                 (\<lambda>_. Inr (JObject [(''rows'',
                      JArray [JObject [(''id'', JString ''org.couchdb.user:alice'')],
                              JObject [(''id'', JString ''_design/x'')],
                              JObject [(''id'', JString ''org.couchdb.user:'')],
                              JObject [(''id'', JString ''bob'')]])]))
                 (\<lambda>_. Inr [])"
              "fresh_connection auth_none"
              "JObject [(''rows'',
                  JArray [JObject [(''id'', JString ''org.couchdb.user:alice'')],
                          JObject [(''id'', JString ''_design/x'')],
                          JObject [(''id'', JString ''org.couchdb.user:'')],
                          JObject [(''id'', JString ''bob'')]])]"]
        list_user_names_normalized
          [of "fixed_server (\<lambda>_. Inr (JObject [(''rows'', JNull)])) (\<lambda>_. Inr [])"
              "fresh_connection auth_none" "JObject [(''rows'', JNull)]"]
  by (simp add: fixed_server_def normalize_user_id_def)

subsection \<open>Server version\<close>

lemma find_char_from_takeWhile:
  "find_char_from i s ch =
     (if ch \<in> set s then Some (i + length (takeWhile (\<lambda>x. x \<noteq> ch) s)) else None)"
  by (induction s arbitrary: i) auto

lemma take_length_takeWhile: "take (length (takeWhile P xs)) xs = takeWhile P xs"
  by (induction xs) auto

lemma takeWhile_absent: "ch \<notin> set v \<Longrightarrow> takeWhile (\<lambda>x. x \<noteq> ch) v = v"
  by (induction v) auto

lemma copy_is_component:
  "(case find_char v ch of None \<Rightarrow> v | Some pos \<Rightarrow> erase_from v pos) = takeWhile (\<lambda>x. x \<noteq> ch) v"
  by (simp add: find_char_def find_char_from_takeWhile erase_from_def take_length_takeWhile
      takeWhile_absent)

lemma get_couchdb_info_result:
  "get_couchdb_info T c =
     (case respond T (comm c) root_request of
        Inl e \<Rightarrow> (Inl e, record_event (Sent root_request (Inl e)) c)
      | Inr response \<Rightarrow>
          if is_object response
          then (Inr (), (record_event (Sent root_request (Inr response)) c)
                  \<lparr>couchDBVersion := get_string (member response ''version''),
                   couchdb_major := major_of response\<rparr>)
          else (Inl (error1 bad_response), record_event (Sent root_request (Inr response)) c))"
  by (simp add: get_couchdb_info_def get_data_def Let_def root_request_def major_of_def
      leading_component_def copy_is_component split: sum.splits)

lemma no_leading_integer_fails:
  assumes "\<not> has_leading_integer s"
  shows "extract_int s = None"
proof (cases "dropWhile isspace s")
  case Nil
  show ?thesis unfolding extract_int_def Nil by simp
next
  case (Cons x xs)
  show ?thesis
  proof (cases "x = CHR ''-'' \<or> x = CHR ''+''")
    case True
    with assms Cons have "takeWhile isdigit xs = []"
      by (cases xs) (auto simp: has_leading_integer_def)
    with True show ?thesis unfolding extract_int_def Cons by auto
  next
    case False
    with assms Cons have "\<not> isdigit x"
      by (simp add: has_leading_integer_def)
    with False show ?thesis unfolding extract_int_def Cons by simp
  qed
qed

lemma isdigit_not_space: "isdigit d \<Longrightarrow> \<not> isspace d"
  by (auto simp: isdigit_def isspace_def)

lemma isdigit_not_sign: "isdigit d \<Longrightarrow> d \<noteq> CHR ''-'' \<and> d \<noteq> CHR ''+''"
  by (auto simp: isdigit_def)

lemma takeWhile_digits:
  "\<forall>d\<in>set ds. isdigit d \<Longrightarrow> rest = [] \<or> \<not> isdigit (hd rest) \<Longrightarrow> takeWhile isdigit (ds @ rest) = ds"
  by (cases rest) (auto simp: takeWhile_append2)

lemma isspace_iff: "isspace ch \<longleftrightarrow> ch \<in> set white_space"
  by (simp add: isspace_def white_space_def)

lemma char_of_digits:
  "char_of (48::nat) = CHR ''0'' \<and> char_of (49::nat) = CHR ''1'' \<and> char_of (50::nat) = CHR ''2''
   \<and> char_of (51::nat) = CHR ''3'' \<and> char_of (52::nat) = CHR ''4'' \<and> char_of (53::nat) = CHR ''5''
   \<and> char_of (54::nat) = CHR ''6'' \<and> char_of (55::nat) = CHR ''7'' \<and> char_of (56::nat) = CHR ''8''
   \<and> char_of (57::nat) = CHR ''9''"
  by code_simp

lemma isdigit_iff: "isdigit d \<longleftrightarrow> d \<in> set ''0123456789''"
proof
  assume "d \<in> set ''0123456789''"
  then show "isdigit d" by (auto simp: isdigit_def)
next
  assume "isdigit d"
  define n where "n = (of_char d :: nat)"
  have d: "d = char_of n" by (simp add: n_def)
  from \<open>isdigit d\<close> have "48 \<le> n" and "n \<le> 57" by (simp_all add: isdigit_def n_def)
  then have "n = 48 \<or> n = 49 \<or> n = 50 \<or> n = 51 \<or> n = 52 \<or> n = 53 \<or> n = 54 \<or> n = 55
      \<or> n = 56 \<or> n = 57"
    by arith
  then show "d \<in> set ''0123456789''"
    unfolding d by (elim disjE) (simp_all add: char_of_digits)
qed

lemma digit_index_all:
  "list_all (\<lambda>d. (of_char d :: nat) - 48 = digit_index d) ''0123456789''"
  unfolding digit_index_def by code_simp

lemma digit_index_value:
  assumes "d \<in> set ''0123456789''"
  shows "of_char d - 48 = digit_index d"
  using digit_index_all assms unfolding list_all_iff by blast

lemma digits_value_acc:
  "list_all (\<lambda>ch. ch \<in> set ''0123456789'') ds \<Longrightarrow>
     foldl (\<lambda>a d. 10 * a + (of_char d - 48)) a ds = a * 10 ^ length ds + decimal_value ds"
proof (induction ds arbitrary: a)
  case Nil
  then show ?case by simp
next
  case (Cons d ds)
  from Cons.prems have "d \<in> set ''0123456789''" and ds: "list_all (\<lambda>ch. ch \<in> set ''0123456789'') ds"
    by (simp_all del: set_simps)
  then have d: "of_char d - 48 = digit_index d" by (simp only: digit_index_value)
  have "foldl (\<lambda>a d. 10 * a + (of_char d - 48)) a (d # ds) =
          foldl (\<lambda>a d. 10 * a + (of_char d - 48)) (10 * a + digit_index d) ds"
    by (simp only: foldl.simps d)
  also have "\<dots> = (10 * a + digit_index d) * 10 ^ length ds + decimal_value ds"
    by (rule Cons.IH [OF ds])
  also have "\<dots> = a * 10 ^ length (d # ds) + decimal_value (d # ds)"
    by (simp add: algebra_simps)
  finally show ?case .
qed

lemma digits_value_decimal:
  assumes "list_all (\<lambda>ch. ch \<in> set ''0123456789'') ds"
  shows "digits_value ds = decimal_value ds"
proof -
  have "foldl (\<lambda>a d. 10 * a + (of_char d - 48)) 0 ds = 0 * 10 ^ length ds + decimal_value ds"
    using assms by (rule digits_value_acc)
  then show ?thesis unfolding digits_value_def by simp
qed

lemma dropWhile_skip:
  "\<forall>x\<in>set xs. P x \<Longrightarrow> t = [] \<or> \<not> P (hd t) \<Longrightarrow> dropWhile P (xs @ t) = t"
  by (induction xs) (cases t, auto)

lemma extract_int_shape:
  assumes ws: "\<forall>ch\<in>set ws. isspace ch" and dg: "\<forall>d\<in>set ds. isdigit d"
    and rest: "rest = [] \<or> \<not> isdigit (hd rest)"
    and sg: "sg = [] \<or> sg = ''-'' \<or> sg = ''+''"
    and nosp: "sg @ ds @ rest = [] \<or> \<not> isspace (hd (sg @ ds @ rest))"
    and nosign: "sg = [] \<and> ds = [] \<and> rest \<noteq> [] \<longrightarrow> hd rest \<noteq> CHR ''-'' \<and> hd rest \<noteq> CHR ''+''"
  shows "extract_int (ws @ sg @ ds @ rest) =
           (if ds = [] then None
            else let v = (if sg = ''-'' then - int (digits_value ds) else int (digits_value ds))
                 in if v < - 2147483648 \<or> 2147483647 < v then None else Some v)"
proof -
  have dw: "dropWhile isspace (ws @ sg @ ds @ rest) = sg @ ds @ rest"
    using ws nosp by (rule dropWhile_skip)
  have tw: "takeWhile isdigit (ds @ rest) = ds"
    using dg rest by (rule takeWhile_digits)
  from sg consider (minus) "sg = ''-''" | (plus) "sg = ''+''" | (none) "sg = []" by blast
  then show ?thesis
  proof cases
    case minus
    show ?thesis unfolding extract_int_def dw by (simp add: minus tw Let_def)
  next
    case plus
    show ?thesis unfolding extract_int_def dw by (simp add: plus tw Let_def)
  next
    case none
    have dw': "dropWhile isspace (ws @ ds @ rest) = ds @ rest"
      using dw by (simp add: none)
    have "extract_int (ws @ ds @ rest) =
            (if ds = [] then None
             else if int (digits_value ds) < - 2147483648 \<or> 2147483647 < int (digits_value ds)
                  then None else Some (int (digits_value ds)))"
    proof (cases ds)
      case (Cons d ds')
      with dg have "isdigit d" by simp
      then have "d \<noteq> CHR ''-'' \<and> d \<noteq> CHR ''+''" by (rule isdigit_not_sign)
      then have h: "(case ds @ rest of [] \<Rightarrow> [] | x # xs \<Rightarrow> if x = CHR ''-'' \<or> x = CHR ''+'' then xs else ds @ rest)
            = ds @ rest"
          and n: "(case ds @ rest of [] \<Rightarrow> False | x # _ \<Rightarrow> x = CHR ''-'') = False"
        by (simp_all add: Cons)
      show ?thesis unfolding extract_int_def dw' h n Let_def tw by simp
    next
      case Nil
      note ds_empty = this
      show ?thesis
      proof (cases rest)
        case Nil
        have d0: "dropWhile isspace ws = []" using ws by simp
        show ?thesis unfolding ds_empty Nil append_Nil append_Nil2 extract_int_def d0 by simp
      next
        case (Cons x xs)
        have d: "dropWhile isspace (ws @ x # xs) = x # xs" using dw' by (simp add: ds_empty Cons)
        from nosign none ds_empty Cons have "x \<noteq> CHR ''-'' \<and> x \<noteq> CHR ''+''" by simp
        moreover from rest Cons have "\<not> isdigit x" by simp
        ultimately show ?thesis unfolding ds_empty Cons append_Nil extract_int_def d by simp
      qed
    qed
    then show ?thesis by (simp add: none Let_def)
  qed
qed

lemma extract_int_layout:
  assumes "integer_layout s ws sg ds rest"
  shows "(case extract_int s of Some n \<Rightarrow> n | None \<Rightarrow> - 1) = denoted_major sg ds"
proof -
  from assms have s: "s = ws @ sg @ ds @ rest"
    and ws: "\<forall>ch\<in>set ws. isspace ch" and dg: "\<forall>d\<in>set ds. isdigit d"
    and sg: "sg = [] \<or> sg = ''-'' \<or> sg = ''+''"
    by (simp_all add: integer_layout_def list_all_iff isspace_iff isdigit_iff del: set_simps)
  from assms have r0: "case rest of [] \<Rightarrow> True | x # _ \<Rightarrow> x \<notin> set ''0123456789''"
    and n0: "case sg @ ds @ rest of [] \<Rightarrow> True | x # _ \<Rightarrow> x \<notin> set white_space"
    and g0: "sg = [] \<and> ds = [] \<longrightarrow> (case rest of [] \<Rightarrow> True | x # _ \<Rightarrow> x \<noteq> CHR ''-'' \<and> x \<noteq> CHR ''+'')"
    unfolding integer_layout_def by blast+
  from r0 have rest: "rest = [] \<or> \<not> isdigit (hd rest)"
    by (cases rest) (simp_all add: isdigit_iff del: set_simps)
  from n0 have nosp: "sg @ ds @ rest = [] \<or> \<not> isspace (hd (sg @ ds @ rest))"
    by (cases "sg @ ds @ rest") (simp_all add: isspace_iff del: set_simps)
  from g0 have nosign: "sg = [] \<and> ds = [] \<and> rest \<noteq> [] \<longrightarrow> hd rest \<noteq> CHR ''-'' \<and> hd rest \<noteq> CHR ''+''"
    by (cases rest) simp_all
  from assms have "list_all (\<lambda>ch. ch \<in> set ''0123456789'') ds"
    unfolding integer_layout_def by blast
  then have v: "digits_value ds = decimal_value ds" by (rule digits_value_decimal)
  show ?thesis
    unfolding s extract_int_shape [OF ws dg rest sg nosp nosign] v denoted_major_def
    by (simp add: Let_def)
qed

lemma integer_layout_exists: "\<exists>ws sg ds rest. integer_layout s ws sg ds rest"
proof -
  define ws where "ws = takeWhile isspace s"
  define t where "t = dropWhile isspace s"
  define sg where "sg = (case t of [] \<Rightarrow> [] | x # _ \<Rightarrow> if x = CHR ''-'' \<or> x = CHR ''+'' then [x] else [])"
  define u where "u = drop (length sg) t"
  define ds where "ds = takeWhile isdigit u"
  define rest where "rest = dropWhile isdigit u"
  have s: "s = ws @ t" by (simp add: ws_def t_def)
  have t: "t = sg @ u" by (cases t) (simp_all add: sg_def u_def)
  have u: "u = ds @ rest" by (simp add: ds_def rest_def)
  have w: "list_all (\<lambda>ch. ch \<in> set white_space) ws"
    unfolding list_all_iff ws_def isspace_iff [symmetric] by (auto dest: set_takeWhileD)
  have d: "list_all (\<lambda>ch. ch \<in> set ''0123456789'') ds"
    unfolding list_all_iff ds_def isdigit_iff [symmetric] by (auto dest: set_takeWhileD)
  have g: "sg = [] \<or> sg = ''-'' \<or> sg = ''+''"
    by (cases t) (auto simp: sg_def)
  have r: "case rest of [] \<Rightarrow> True | x # _ \<Rightarrow> x \<notin> set ''0123456789''"
  proof (cases rest)
    case (Cons x xs)
    then have "\<not> isdigit x" using hd_dropWhile [of isdigit u] by (simp add: rest_def)
    with Cons show ?thesis by (simp add: isdigit_iff del: set_simps)
  qed simp
  have n: "case sg @ ds @ rest of [] \<Rightarrow> True | x # _ \<Rightarrow> x \<notin> set white_space"
  proof (cases t)
    case (Cons x xs)
    then have "\<not> isspace x" using hd_dropWhile [of isspace s] by (simp add: t_def)
    with Cons show ?thesis unfolding u [symmetric] t [symmetric] by (simp add: isspace_iff del: set_simps)
  next
    case Nil
    then show ?thesis unfolding u [symmetric] t [symmetric] by simp
  qed
  have e: "sg = [] \<and> ds = [] \<longrightarrow> (case rest of [] \<Rightarrow> True | x # _ \<Rightarrow> x \<noteq> CHR ''-'' \<and> x \<noteq> CHR ''+'')"
  proof (intro impI, elim conjE)
    assume a: "sg = []" "ds = []"
    then have "rest = t" using t u by simp
    with a(1) show "case rest of [] \<Rightarrow> True | x # _ \<Rightarrow> x \<noteq> CHR ''-'' \<and> x \<noteq> CHR ''+''"
      by (cases t) (auto simp: sg_def split: if_splits)
  qed
  have "integer_layout s ws sg ds rest"
    unfolding integer_layout_def using s t u w d g r n e by blast
  then show ?thesis by blast
qed

lemma get_major_version_result:
  "fst (get_major_version T c) =
     (case respond T (comm c) root_request of
        Inl e \<Rightarrow> Inl e
      | Inr response \<Rightarrow>
          if is_object response then Inr (major_of response) else Inl (error1 bad_response))"
  by (simp add: get_major_version_def get_couchdb_info_result split: sum.splits)





text \<open>
  C5. After a root answer that is an object, \<open>get_major_version\<close> returns, and returns
  the major version of the leading component of the version string (what stands before the
  first dot). Every such component is laid out as white space, an optional sign, decimal
  digits and a rest; the result is the number the digits denote in base ten, with the
  sign, when there are digits and the number fits an \<open>int\<close>, and \<open>-1\<close> when there are no
  digits or the number does not fit. A failed parse raises nothing.
\<close>

theorem get_major_version_leading_component:
  assumes "respond T (comm c) root_request = Inr response" and "is_object response"
  shows "fst (get_major_version T c) = Inr (major_of response)
       \<and> (\<not> has_leading_integer (leading_component response)
            \<longrightarrow> fst (get_major_version T c) = Inr (- 1))
       \<and> (\<exists>ws sg ds rest. integer_layout (leading_component response) ws sg ds rest)
       \<and> (\<forall>ws sg ds rest. integer_layout (leading_component response) ws sg ds rest
            \<longrightarrow> fst (get_major_version T c) = Inr (denoted_major sg ds))"
proof -
  have r: "fst (get_major_version T c) = Inr (major_of response)"
    using assms by (simp add: get_major_version_result)
  have a: "\<not> has_leading_integer (leading_component response) \<Longrightarrow> major_of response = - 1"
    by (simp add: major_of_def no_leading_integer_fails)
  have b: "major_of response = denoted_major sg ds"
    if "integer_layout (leading_component response) ws sg ds rest" for ws sg ds rest
    unfolding major_of_def using that by (rule extract_int_layout)
  have e: "\<exists>ws sg ds rest. integer_layout (leading_component response) ws sg ds rest"
    by (rule integer_layout_exists)
  from r a b e show ?thesis by auto
qed

text \<open>
  \<open>vNext\<close> gives \<open>-1\<close> and \<open>2.3.1\<close> gives \<open>2\<close>; several digits, leading zeros, signs,
  leading white space and a rest after the digits are read as base ten; a number beyond
  \<open>2147483647\<close> gives \<open>-1\<close>, and so does a sign without digits.
\<close>

theorem get_major_version_leading_component_witness:
  "fst (get_major_version
          (fixed_server (\<lambda>_. Inr (JObject [(''version'', JString ''vNext'')])) (\<lambda>_. Inr []))
          (fresh_connection auth_none)) = Inr (- 1)
   \<and> fst (get_major_version
          (fixed_server (\<lambda>_. Inr (JObject [(''version'', JString ''2.3.1'')])) (\<lambda>_. Inr []))
          (fresh_connection auth_none)) = Inr 2
   \<and> fst (get_major_version
          (fixed_server (\<lambda>_. Inr (JObject [(''version'', JString ''10.0.1'')])) (\<lambda>_. Inr []))
          (fresh_connection auth_none)) = Inr 10
   \<and> fst (get_major_version
          (fixed_server (\<lambda>_. Inr (JObject [(''version'', JString ''007.5'')])) (\<lambda>_. Inr []))
          (fresh_connection auth_none)) = Inr 7
   \<and> fst (get_major_version
          (fixed_server (\<lambda>_. Inr (JObject [(''version'', JString ''-3.1'')])) (\<lambda>_. Inr []))
          (fresh_connection auth_none)) = Inr (- 3)
   \<and> fst (get_major_version
          (fixed_server (\<lambda>_. Inr (JObject [(''version'', JString ''+42'')])) (\<lambda>_. Inr []))
          (fresh_connection auth_none)) = Inr 42
   \<and> fst (get_major_version
          (fixed_server (\<lambda>_. Inr (JObject [(''version'', JString '' 12abc.4'')])) (\<lambda>_. Inr []))
          (fresh_connection auth_none)) = Inr 12
   \<and> fst (get_major_version
          (fixed_server (\<lambda>_. Inr (JObject [(''version'', JString ''2147483647.0'')])) (\<lambda>_. Inr []))
          (fresh_connection auth_none)) = Inr 2147483647
   \<and> fst (get_major_version
          (fixed_server (\<lambda>_. Inr (JObject [(''version'', JString ''2147483648.0'')])) (\<lambda>_. Inr []))
          (fresh_connection auth_none)) = Inr (- 1)
   \<and> fst (get_major_version
          (fixed_server (\<lambda>_. Inr (JObject [(''version'', JString ''99999999999'')])) (\<lambda>_. Inr []))
          (fresh_connection auth_none)) = Inr (- 1)
   \<and> fst (get_major_version
          (fixed_server (\<lambda>_. Inr (JObject [(''version'', JString ''-2147483648.9'')])) (\<lambda>_. Inr []))
          (fresh_connection auth_none)) = Inr (- 2147483648)
   \<and> fst (get_major_version
          (fixed_server (\<lambda>_. Inr (JObject [(''version'', JString ''-x'')])) (\<lambda>_. Inr []))
          (fresh_connection auth_none)) = Inr (- 1)"
proof -
  have gen: "fst (get_major_version
          (fixed_server (\<lambda>_. Inr (JObject [(''version'', JString v)])) (\<lambda>_. Inr []))
          (fresh_connection auth_none)) = Inr (denoted_major sg ds)"
    if "integer_layout (takeWhile (\<lambda>x. x \<noteq> CHR ''.'') v) ws sg ds rest" for v ws sg ds rest
  proof -
    have r: "respond (fixed_server (\<lambda>_. Inr (JObject [(''version'', JString v)])) (\<lambda>_. Inr []))
               (comm (fresh_connection auth_none)) root_request
             = Inr (JObject [(''version'', JString v)])"
      by (simp add: fixed_server_def)
    have o: "is_object (JObject [(''version'', JString v)])" by simp
    have l: "integer_layout (leading_component (JObject [(''version'', JString v)])) ws sg ds rest"
      using that by (simp add: leading_component_def)
    from get_major_version_leading_component [OF r o] l show ?thesis by blast
  qed
  have 1: "integer_layout (takeWhile (\<lambda>x. x \<noteq> CHR ''.'') ''vNext'') [] [] [] ''vNext''"
    by (simp add: integer_layout_def white_space_def)
  have 2: "integer_layout (takeWhile (\<lambda>x. x \<noteq> CHR ''.'') ''2.3.1'') [] [] ''2'' []"
    by (simp add: integer_layout_def white_space_def)
  have 3: "integer_layout (takeWhile (\<lambda>x. x \<noteq> CHR ''.'') ''10.0.1'') [] [] ''10'' []"
    by (simp add: integer_layout_def white_space_def)
  have 4: "integer_layout (takeWhile (\<lambda>x. x \<noteq> CHR ''.'') ''007.5'') [] [] ''007'' []"
    by (simp add: integer_layout_def white_space_def)
  have 5: "integer_layout (takeWhile (\<lambda>x. x \<noteq> CHR ''.'') ''-3.1'') [] ''-'' ''3'' []"
    by (simp add: integer_layout_def white_space_def)
  have 6: "integer_layout (takeWhile (\<lambda>x. x \<noteq> CHR ''.'') ''+42'') [] ''+'' ''42'' []"
    by (simp add: integer_layout_def white_space_def)
  have 7: "integer_layout (takeWhile (\<lambda>x. x \<noteq> CHR ''.'') '' 12abc.4'') '' '' [] ''12'' ''abc''"
    by (simp add: integer_layout_def white_space_def)
  have 8: "integer_layout (takeWhile (\<lambda>x. x \<noteq> CHR ''.'') ''2147483647.0'') [] [] ''2147483647'' []"
    by (simp add: integer_layout_def white_space_def)
  have 9: "integer_layout (takeWhile (\<lambda>x. x \<noteq> CHR ''.'') ''2147483648.0'') [] [] ''2147483648'' []"
    by (simp add: integer_layout_def white_space_def)
  have 10: "integer_layout (takeWhile (\<lambda>x. x \<noteq> CHR ''.'') ''99999999999'') [] [] ''99999999999'' []"
    by (simp add: integer_layout_def white_space_def)
  have 11: "integer_layout (takeWhile (\<lambda>x. x \<noteq> CHR ''.'') ''-2147483648.9'') [] ''-'' ''2147483648'' []"
    by (simp add: integer_layout_def white_space_def)
  have 12: "integer_layout (takeWhile (\<lambda>x. x \<noteq> CHR ''.'') ''-x'') [] ''-'' [] ''x''"
    by (simp add: integer_layout_def white_space_def)
  have v: "denoted_major [] [] = - 1" "denoted_major [] ''2'' = 2" "denoted_major [] ''10'' = 10"
    "denoted_major [] ''007'' = 7" "denoted_major ''-'' ''3'' = - 3" "denoted_major ''+'' ''42'' = 42"
    "denoted_major [] ''12'' = 12" "denoted_major [] ''2147483647'' = 2147483647"
    "denoted_major [] ''2147483648'' = - 1" "denoted_major [] ''99999999999'' = - 1"
    "denoted_major ''-'' ''2147483648'' = - 2147483648" "denoted_major ''-'' [] = - 1"
    by (simp_all add: denoted_major_def digit_index_def)
  show ?thesis
    using gen [OF 1] gen [OF 2] gen [OF 3] gen [OF 4] gen [OF 5] gen [OF 6] gen [OF 7] gen [OF 8]
      gen [OF 9] gen [OF 10] gen [OF 11] gen [OF 12]
    unfolding v by blast
qed



subsection \<open>Cluster and node upgrade\<close>

text \<open>
  C8. \<open>get_supports_clusters\<close> returns true exactly when the major version just
  fetched is at least 2, and fails when that fetch fails.
  \<open>upgrade_to_cluster_connection\<close> returns a cluster connection for the port exactly
  when clusters are supported and the null pointer otherwise.
  \<open>upgrade_to_node_connection\<close> returns a node connection with an empty node name when
  clusters are not supported, and otherwise the first node of the cluster connection.
\<close>

theorem cluster_upgrade_dispatch:
  "(\<forall>b. fst (get_supports_clusters T c) = Inr b
        \<longleftrightarrow> (\<exists>major. fst (get_major_version T c) = Inr major \<and> (b \<longleftrightarrow> 2 \<le> major)))
   \<and> (\<forall>e. fst (get_supports_clusters T c) = Inl e \<longleftrightarrow> fst (get_major_version T c) = Inl e)
   \<and> (fst (get_supports_clusters T c) = Inr True
        \<longrightarrow> fst (upgrade_to_cluster_connection T port c) = Inr (Some (ClusterConnection port)))
   \<and> (fst (get_supports_clusters T c) = Inr False
        \<longrightarrow> fst (upgrade_to_cluster_connection T port c) = Inr None)
   \<and> (\<forall>r. fst (upgrade_to_cluster_connection T port c) = Inr (Some r)
        \<longrightarrow> fst (get_supports_clusters T c) = Inr True)
   \<and> (fst (get_supports_clusters T c) = Inr False
        \<longrightarrow> fst (upgrade_to_node_connection nodes T port c) = Inr (Some (NodeConnection port [])))
   \<and> (\<forall>n ns. fst (get_supports_clusters T c) = Inr True \<and> nodes (ClusterConnection port) = n # ns
        \<longrightarrow> fst (upgrade_to_node_connection nodes T port c) = Inr (Some n))"
proof -
  obtain r c1 where g: "get_major_version T c = (r, c1)" by (cases "get_major_version T c")
  show ?thesis
  proof (cases r)
    case (Inl e)
    with g show ?thesis
      by (simp add: get_supports_clusters_def upgrade_to_cluster_connection_def
          upgrade_to_node_connection_def)
  next
    case (Inr major)
    with g show ?thesis
      by (auto simp: get_supports_clusters_def upgrade_to_cluster_connection_def
          upgrade_to_node_connection_def)
  qed
qed

text \<open>
  Version \<open>2.3.1\<close> gives a cluster connection and the first of two nodes; version
  \<open>1.6.1\<close> gives the null pointer and a node without a name.
\<close>

theorem cluster_upgrade_dispatch_witness:
  "fst (get_supports_clusters
          (fixed_server (\<lambda>_. Inr (JObject [(''version'', JString ''2.3.1'')])) (\<lambda>_. Inr []))
          (fresh_connection auth_none)) = Inr True
   \<and> fst (upgrade_to_cluster_connection
          (fixed_server (\<lambda>_. Inr (JObject [(''version'', JString ''2.3.1'')])) (\<lambda>_. Inr []))
          5986 (fresh_connection auth_none)) = Inr (Some (ClusterConnection 5986))
   \<and> fst (upgrade_to_node_connection
          (\<lambda>_. [NodeConnection 5986 ''couchdb@node1'', NodeConnection 5986 ''couchdb@node2''])
          (fixed_server (\<lambda>_. Inr (JObject [(''version'', JString ''2.3.1'')])) (\<lambda>_. Inr []))
          5986 (fresh_connection auth_none)) = Inr (Some (NodeConnection 5986 ''couchdb@node1''))
   \<and> fst (get_supports_clusters
          (fixed_server (\<lambda>_. Inr (JObject [(''version'', JString ''1.6.1'')])) (\<lambda>_. Inr []))
          (fresh_connection auth_none)) = Inr False
   \<and> fst (upgrade_to_cluster_connection
          (fixed_server (\<lambda>_. Inr (JObject [(''version'', JString ''1.6.1'')])) (\<lambda>_. Inr []))
          5986 (fresh_connection auth_none)) = Inr None
   \<and> fst (upgrade_to_node_connection
          (\<lambda>_. [NodeConnection 5986 ''couchdb@node1'', NodeConnection 5986 ''couchdb@node2''])
          (fixed_server (\<lambda>_. Inr (JObject [(''version'', JString ''1.6.1'')])) (\<lambda>_. Inr []))
          5986 (fresh_connection auth_none)) = Inr (Some (NodeConnection 5986 []))"
proof -
  define S2 where
    "S2 = fixed_server (\<lambda>_. Inr (JObject [(''version'', JString ''2.3.1'')])) (\<lambda>_. Inr [])"
  define S1 where
    "S1 = fixed_server (\<lambda>_. Inr (JObject [(''version'', JString ''1.6.1'')])) (\<lambda>_. Inr [])"
  define c0 where "c0 = fresh_connection auth_none"
  define nodes :: "cluster_connection \<Rightarrow> node_connection list" where
    "nodes = (\<lambda>_. [NodeConnection 5986 ''couchdb@node1'', NodeConnection 5986 ''couchdb@node2''])"
  have two: "fst (get_major_version S2 c0) = Inr 2"
    unfolding S2_def c0_def
    by (simp add: get_major_version_result fixed_server_def major_of_def leading_component_def
        extract_int_def isspace_def isdigit_def digits_value_def)
  have one: "fst (get_major_version S1 c0) = Inr 1"
    unfolding S1_def c0_def
    by (simp add: get_major_version_result fixed_server_def major_of_def leading_component_def
        extract_int_def isspace_def isdigit_def digits_value_def)
  note t2 = cluster_upgrade_dispatch [of S2 c0 5986 nodes]
  note t1 = cluster_upgrade_dispatch [of S1 c0 5986 nodes]
  from t2 have "fst (get_supports_clusters S2 c0) = Inr True
      \<longleftrightarrow> (\<exists>major. fst (get_major_version S2 c0) = Inr major \<and> (True \<longleftrightarrow> 2 \<le> major))"
    by blast
  with two have s2: "fst (get_supports_clusters S2 c0) = Inr True" by simp
  from t1 have "fst (get_supports_clusters S1 c0) = Inr False
      \<longleftrightarrow> (\<exists>major. fst (get_major_version S1 c0) = Inr major \<and> (False \<longleftrightarrow> 2 \<le> major))"
    by blast
  with one have s1: "fst (get_supports_clusters S1 c0) = Inr False" by simp
  have n: "nodes (ClusterConnection 5986) =
             NodeConnection 5986 ''couchdb@node1'' # [NodeConnection 5986 ''couchdb@node2'']"
    by (simp add: nodes_def)
  from t2 s2 have c2: "fst (upgrade_to_cluster_connection S2 5986 c0) = Inr (Some (ClusterConnection 5986))"
    by blast
  from t2 s2 n have n2: "fst (upgrade_to_node_connection nodes S2 5986 c0)
      = Inr (Some (NodeConnection 5986 ''couchdb@node1''))"
    by blast
  from t1 s1 have c1: "fst (upgrade_to_cluster_connection S1 5986 c0) = Inr None"
    by blast
  from t1 s1 have n1: "fst (upgrade_to_node_connection nodes S1 5986 c0)
      = Inr (Some (NodeConnection 5986 []))"
    by blast
  from s2 c2 n2 s1 c1 n1 show ?thesis
    unfolding S2_def S1_def c0_def nodes_def by blast
qed

subsection \<open>Creating a database\<close>

lemma get_bool_literally_true: "get_bool j \<longleftrightarrow> j = JBool True"
  by (cases j) auto

lemma create_db_result:
  "create_db T db c =
     (case respond T (comm c) (put_request T db) of
        Inl e \<Rightarrow> (Inl e, record_event (Sent (put_request T db) (Inl e)) c)
      | Inr response \<Rightarrow>
          if \<not> is_object response
          then (Inl (error1 database_unavailable), record_event (Sent (put_request T db) (Inr response)) c)
          else if is_member response ''error''
          then (Inl (error2 database_not_creatable (get_string (member response ''reason''))),
                record_event (Sent (put_request T db) (Inr response)) c)
          else if member response ''ok'' \<noteq> JBool True
          then (Inl (error1 database_not_creatable), record_event (Sent (put_request T db) (Inr response)) c)
          else (Inr (Database db),
                record_event (Constructed db) (record_event (Sent (put_request T db) (Inr response)) c)))"
  by (simp add: create_db_def get_data_def Let_def put_request_def construct_database_def
      get_bool_literally_true split: sum.splits)

lemma get_db_result:
  "get_db T db c =
     (case respond_raw T (comm c) (head_request T db) of
        Inl e \<Rightarrow> (Inl e, record_event (SentRaw (head_request T db) (Inl e)) c)
      | Inr raw \<Rightarrow>
          (Inr (Database db),
           record_event (Constructed db) (record_event (SentRaw (head_request T db) (Inr raw)) c)))"
  by (simp add: get_db_def get_raw_data_def Let_def head_request_def construct_database_def
      split: sum.splits)

lemma trace_record_event [simp]: "trace (comm (record_event ev c)) = trace (comm c) @ [ev]"
  by (simp add: record_event_def)

lemma comm_record_event_auth [simp]: "auth (comm (record_event ev c)) = auth (comm c)"
  by (simp add: record_event_def)

text \<open>
  C4, as stated, fails: when the answer to the PUT is not a JSON object, \<open>create_db\<close>
  throws \<open>database_unavailable\<close>, not \<open>bad_response\<close>. Here the server answers
  \<open>null\<close>.
\<close>

theorem create_db_not_object_counterexample:
  "respond (fixed_server (\<lambda>_. Inr JNull) (\<lambda>_. Inr [])) (comm (fresh_connection auth_none))
      (put_request (fixed_server (\<lambda>_. Inr JNull) (\<lambda>_. Inr [])) ''db'') = Inr JNull
   \<and> \<not> is_object JNull
   \<and> fst (create_db (fixed_server (\<lambda>_. Inr JNull) (\<lambda>_. Inr [])) ''db'' (fresh_connection auth_none))
       = Inl \<lparr>etype = database_unavailable, reason = []\<rparr>
   \<and> etype \<lparr>etype = database_unavailable, reason = []\<rparr> \<noteq> bad_response"
  by (simp add: create_db_result fixed_server_def error1_def)

text \<open>
  C4, amended. For every answer to the PUT: \<open>create_db\<close> fails with
  \<open>database_unavailable\<close> when the answer is not a JSON object; with
  \<open>database_not_creatable\<close> carrying the answer's \<open>reason\<close> string when the object
  has an \<open>error\<close> member; with \<open>database_not_creatable\<close> and no reason when \<open>ok\<close> is
  not the literal \<open>true\<close>; and otherwise returns the database object for the name.
\<close>

theorem create_db_outcomes:
  assumes "respond T (comm c) (put_request T db) = Inr response"
  shows "fst (create_db T db c) =
           (if \<not> is_object response then Inl (error1 database_unavailable)
            else if is_member response ''error''
            then Inl (error2 database_not_creatable (get_string (member response ''reason'')))
            else if member response ''ok'' \<noteq> JBool True then Inl (error1 database_not_creatable)
            else Inr (Database db))"
  using assms by (simp add: create_db_result)

text \<open>
  The answer \<open>{"error": "file_exists", "reason": ...}\<close> carries its reason into the
  error, \<open>{"ok": true}\<close> gives the database, and \<open>{"ok": 1}\<close> is refused.
\<close>

theorem create_db_outcomes_witness:
  "fst (create_db (fixed_server
          (\<lambda>_. Inr (JObject [(''error'', JString ''file_exists''), (''reason'', JString ''exists already'')]))
          (\<lambda>_. Inr [])) ''db'' (fresh_connection auth_none))
     = Inl \<lparr>etype = database_not_creatable, reason = ''exists already''\<rparr>
   \<and> fst (create_db (fixed_server (\<lambda>_. Inr (JObject [(''ok'', JBool True)])) (\<lambda>_. Inr []))
           ''db'' (fresh_connection auth_none))
     = Inr (Database ''db'')
   \<and> fst (create_db (fixed_server (\<lambda>_. Inr (JObject [(''ok'', JInt 1)])) (\<lambda>_. Inr []))
           ''db'' (fresh_connection auth_none))
     = Inl \<lparr>etype = database_not_creatable, reason = []\<rparr>"
  using create_db_outcomes
          [of "fixed_server
                (\<lambda>_. Inr (JObject [(''error'', JString ''file_exists''), (''reason'', JString ''exists already'')]))
                (\<lambda>_. Inr [])" "fresh_connection auth_none" "''db''"
              "JObject [(''error'', JString ''file_exists''), (''reason'', JString ''exists already'')]"]
        create_db_outcomes
          [of "fixed_server (\<lambda>_. Inr (JObject [(''ok'', JBool True)])) (\<lambda>_. Inr [])"
              "fresh_connection auth_none" "''db''" "JObject [(''ok'', JBool True)]"]
        create_db_outcomes
          [of "fixed_server (\<lambda>_. Inr (JObject [(''ok'', JInt 1)])) (\<lambda>_. Inr [])"
              "fresh_connection auth_none" "''db''" "JObject [(''ok'', JInt 1)]"]
  by (simp add: fixed_server_def error1_def error2_def)

subsection \<open>Ensuring a database is deleted\<close>

lemma remove_db_result:
  "remove_db T db c =
     (case respond T (comm c) (delete_request T db) of
        Inl e \<Rightarrow> (Inl e, record_event (Sent (delete_request T db) (Inl e)) c)
      | Inr response \<Rightarrow>
          (if \<not> is_object response then Inl (error1 database_not_deletable)
           else if is_member response ''error''
           then Inl (error2 database_not_deletable (get_string (member response ''reason'')))
           else if member response ''ok'' \<noteq> JBool True then Inl (error1 database_not_deletable)
           else Inr (),
           record_event (Sent (delete_request T db) (Inr response)) c))"
  by (simp add: remove_db_def get_data_def Let_def delete_request_def
      get_bool_literally_true split: sum.splits)

lemma remove_db_added:
  "added c (snd (remove_db T db c)) =
     [Sent (delete_request T db) (respond T (comm c) (delete_request T db))]"
  by (simp add: remove_db_result added_def split: sum.splits)

lemma ensure_db_is_deleted_state:
  "snd (ensure_db_is_deleted T db c) = snd (remove_db T db c)"
  by (simp add: ensure_db_is_deleted_def split: prod.splits sum.splits)

text \<open>
  C2. \<open>ensure_db_is_deleted\<close> runs \<open>remove_db\<close> (its one DELETE request is all it
  sends). It returns normally, in the state \<open>remove_db\<close> left, when \<open>remove_db\<close>
  succeeds or fails with \<open>content_not_found\<close> or \<open>database_not_deletable\<close>; an error of
  any other kind comes out unchanged.
\<close>

theorem ensure_db_is_deleted_tolerates:
  "(\<forall>c1. remove_db T db c = (Inr (), c1) \<longrightarrow> ensure_db_is_deleted T db c = (Inr (), c1))
   \<and> (\<forall>e c1. remove_db T db c = (Inl e, c1)
          \<and> (etype e = content_not_found \<or> etype e = database_not_deletable)
        \<longrightarrow> ensure_db_is_deleted T db c = (Inr (), c1))
   \<and> (\<forall>e c1. remove_db T db c = (Inl e, c1)
          \<and> etype e \<noteq> content_not_found \<and> etype e \<noteq> database_not_deletable
        \<longrightarrow> ensure_db_is_deleted T db c = (Inl e, c1))
   \<and> added c (snd (ensure_db_is_deleted T db c)) =
        [Sent (delete_request T db) (respond T (comm c) (delete_request T db))]"
proof -
  have "added c (snd (ensure_db_is_deleted T db c)) =
        [Sent (delete_request T db) (respond T (comm c) (delete_request T db))]"
    by (simp only: ensure_db_is_deleted_state remove_db_added)
  then show ?thesis
    by (auto simp: ensure_db_is_deleted_def)
qed

text \<open>
  A successful removal, a \<open>content_not_found\<close> from the transport and a server-side
  refusal all end in success; another transport error is passed on.
\<close>

theorem ensure_db_is_deleted_tolerates_witness:
  "fst (ensure_db_is_deleted (fixed_server (\<lambda>_. Inr (JObject [(''ok'', JBool True)])) (\<lambda>_. Inr []))
          ''db'' (fresh_connection auth_none)) = Inr ()
   \<and> fst (ensure_db_is_deleted (fixed_server (\<lambda>_. Inl (error1 content_not_found)) (\<lambda>_. Inr []))
          ''db'' (fresh_connection auth_none)) = Inr ()
   \<and> fst (ensure_db_is_deleted
            (fixed_server (\<lambda>_. Inr (JObject [(''error'', JString ''x''), (''reason'', JString ''y'')]))
               (\<lambda>_. Inr []))
          ''db'' (fresh_connection auth_none)) = Inr ()
   \<and> fst (ensure_db_is_deleted (fixed_server (\<lambda>_. Inl (error1 (other_error 401))) (\<lambda>_. Inr []))
          ''db'' (fresh_connection auth_none)) = Inl (error1 (other_error 401))"
  using ensure_db_is_deleted_tolerates
          [of "fixed_server (\<lambda>_. Inr (JObject [(''ok'', JBool True)])) (\<lambda>_. Inr [])" "''db''"
              "fresh_connection auth_none"]
        ensure_db_is_deleted_tolerates
          [of "fixed_server (\<lambda>_. Inl (error1 content_not_found)) (\<lambda>_. Inr [])" "''db''"
              "fresh_connection auth_none"]
        ensure_db_is_deleted_tolerates
          [of "fixed_server (\<lambda>_. Inr (JObject [(''error'', JString ''x''), (''reason'', JString ''y'')]))
               (\<lambda>_. Inr [])" "''db''"
              "fresh_connection auth_none"]
        ensure_db_is_deleted_tolerates
          [of "fixed_server (\<lambda>_. Inl (error1 (other_error 401))) (\<lambda>_. Inr [])" "''db''"
              "fresh_connection auth_none"]
  by (simp add: remove_db_result fixed_server_def error1_def error2_def)

subsection \<open>Ensuring a database exists\<close>

text \<open>
  C3. \<open>ensure_db_exists\<close> first runs \<open>get_db\<close> (the HEAD request is the first thing
  it sends). If \<open>get_db\<close> succeeds, that is the result; if it fails with
  \<open>content_not_found\<close>, the result is that of \<open>create_db\<close>; an error of any other kind
  comes out unchanged. The PUT of \<open>create_db\<close> is sent if and only if \<open>get_db\<close> failed
  with \<open>content_not_found\<close>.
\<close>

theorem ensure_db_exists_falls_through:
  "(\<forall>d c1. get_db T db c = (Inr d, c1) \<longrightarrow> ensure_db_exists T db c = (Inr d, c1))
   \<and> (\<forall>e c1. get_db T db c = (Inl e, c1) \<and> etype e = content_not_found
        \<longrightarrow> ensure_db_exists T db c = create_db T db c1)
   \<and> (\<forall>e c1. get_db T db c = (Inl e, c1) \<and> etype e \<noteq> content_not_found
        \<longrightarrow> ensure_db_exists T db c = (Inl e, c1))
   \<and> take 1 (added c (snd (ensure_db_exists T db c))) =
        [SentRaw (head_request T db) (respond_raw T (comm c) (head_request T db))]
   \<and> (list_ex (is_sent (put_request T db)) (added c (snd (ensure_db_exists T db c)))
        \<longleftrightarrow> (\<exists>e. fst (get_db T db c) = Inl e \<and> etype e = content_not_found))"
proof -
  have a: "(\<forall>d c1. get_db T db c = (Inr d, c1) \<longrightarrow> ensure_db_exists T db c = (Inr d, c1))
   \<and> (\<forall>e c1. get_db T db c = (Inl e, c1) \<and> etype e = content_not_found
        \<longrightarrow> ensure_db_exists T db c = create_db T db c1)
   \<and> (\<forall>e c1. get_db T db c = (Inl e, c1) \<and> etype e \<noteq> content_not_found
        \<longrightarrow> ensure_db_exists T db c = (Inl e, c1))"
    by (auto simp: ensure_db_exists_def)
  have b: "take 1 (added c (snd (ensure_db_exists T db c))) =
        [SentRaw (head_request T db) (respond_raw T (comm c) (head_request T db))]"
    by (simp add: ensure_db_exists_def get_db_result create_db_result added_def split: sum.splits)
  have c: "list_ex (is_sent (put_request T db)) (added c (snd (ensure_db_exists T db c)))
        \<longleftrightarrow> (\<exists>e. fst (get_db T db c) = Inl e \<and> etype e = content_not_found)"
    by (simp add: ensure_db_exists_def get_db_result create_db_result added_def split: sum.splits)
  from a b c show ?thesis by blast
qed

text \<open>
  A database that is there is returned; \<open>content_not_found\<close> leads to \<open>create_db\<close>;
  another error of the HEAD request is passed on with nothing else sent.
\<close>

theorem ensure_db_exists_falls_through_witness:
  "fst (ensure_db_exists (fixed_server (\<lambda>_. Inr JNull) (\<lambda>_. Inr [])) ''db''
          (fresh_connection auth_none)) = Inr (Database ''db'')
   \<and> ensure_db_exists
         (fixed_server (\<lambda>_. Inr (JObject [(''ok'', JBool True)])) (\<lambda>_. Inl (error1 content_not_found)))
         ''db'' (fresh_connection auth_none)
       = create_db
           (fixed_server (\<lambda>_. Inr (JObject [(''ok'', JBool True)])) (\<lambda>_. Inl (error1 content_not_found)))
           ''db''
           (record_event
              (SentRaw (mk_request ''/db'' ''HEAD'' [] False) (Inl (error1 content_not_found)))
              (fresh_connection auth_none))
   \<and> ensure_db_exists
         (fixed_server (\<lambda>_. Inr (JObject [(''ok'', JBool True)])) (\<lambda>_. Inl (error1 (other_error 500))))
         ''db'' (fresh_connection auth_none)
       = (Inl (error1 (other_error 500)),
          record_event
            (SentRaw (mk_request ''/db'' ''HEAD'' [] False) (Inl (error1 (other_error 500))))
            (fresh_connection auth_none))"
  using ensure_db_exists_falls_through
          [of "fixed_server (\<lambda>_. Inr JNull) (\<lambda>_. Inr [])" "''db''" "fresh_connection auth_none"]
        ensure_db_exists_falls_through
          [of "fixed_server (\<lambda>_. Inr (JObject [(''ok'', JBool True)])) (\<lambda>_. Inl (error1 content_not_found))"
              "''db''" "fresh_connection auth_none"]
        ensure_db_exists_falls_through
          [of "fixed_server (\<lambda>_. Inr (JObject [(''ok'', JBool True)])) (\<lambda>_. Inl (error1 (other_error 500)))"
              "''db''" "fresh_connection auth_none"]
  by (simp add: get_db_result fixed_server_def error1_def head_request_def)

subsection \<open>Login and the auth mode\<close>

lemma auth_set_auth_type [simp]: "auth (comm (set_auth_type t c)) = t"
  by (simp add: set_auth_type_def)

lemma get_data_auth [simp]: "auth (comm (snd (get_data T p m b r c))) = auth (comm c)"
  by (simp add: get_data_def Let_def)

lemma logout_auth [simp]: "auth (comm (snd (logout T c))) = auth (comm c)"
  by (simp add: logout_def get_data_def Let_def split: auth_type.splits sum.splits)

lemma login_restores_on_success:
  assumes "fst (login T c) = Inr u"
  shows "auth (comm (snd (login T c))) = auth (comm c)"
  using assms
  by (auto simp: login_def Let_def split: if_splits prod.splits sum.splits)

lemma login_restores_on_logout_failure:
  assumes "auth (comm c) = auth_basic"
    and "respond T (comm (set_auth_type auth_basic c)) (session_request T c) = Inr response"
    and "fst (logout T (set_auth_type auth_cookie
                (record_event (Sent (session_request T c) (Inr response))
                   (set_auth_type auth_basic c)))) = Inl e"
  shows "fst (login T c) = Inl e \<and> auth (comm (snd (login T c))) = auth_basic"
proof -
  let ?c3 = "set_auth_type auth_cookie
               (record_event (Sent (session_request T c) (Inr response))
                  (set_auth_type auth_basic c))"
  obtain r c4 where l: "logout T ?c3 = (r, c4)" by (cases "logout T ?c3")
  with assms(3) have r: "r = Inl e" by simp
  have "auth (comm (set_auth_type auth_basic c4)) = auth_basic" by simp
  with assms(1,2) l r show ?thesis
    by (simp add: login_def Let_def get_data_def session_request_def set_auth_type_def)
qed

lemma login_post_failure_leaves_basic:
  assumes "auth (comm c) = auth_basic \<or> auth (comm c) = auth_cookie"
    and "respond T (comm (set_auth_type auth_basic c)) (session_request T c) = Inl e"
  shows "fst (login T c) = Inl e \<and> auth (comm (snd (login T c))) = auth_basic"
  using assms
  by (auto simp: login_def Let_def session_request_def get_data_def set_auth_type_def record_event_def)

text \<open>
  The auth mode after \<open>login\<close>, in every case: it is the mode at entry, except when
  the mode at entry was \<open>cookie\<close> and the POST to \<open>/_session\<close> failed; then it is
  \<open>basic\<close>.
\<close>

lemma login_final_mode:
  "auth (comm (snd (login T c))) =
     (if auth (comm c) = auth_cookie
         \<and> (\<exists>e. respond T (comm (set_auth_type auth_basic c)) (session_request T c) = Inl e)
      then auth_basic else auth (comm c))"
proof (cases "respond T (comm (set_auth_type auth_basic c)) (session_request T c)")
  case (Inl e)
  then show ?thesis
    by (auto simp: login_def Let_def session_request_def get_data_def set_auth_type_def
        record_event_def)
next
  case (Inr response)
  have "auth (comm (snd (logout T c'))) = auth (comm c')" for c'
    by (rule logout_auth)
  with Inr show ?thesis
    by (cases "auth (comm c)")
       (auto simp: login_def Let_def session_request_def get_data_def set_auth_type_def
          record_event_def split: prod.splits sum.splits)
qed

text \<open>
  C1 says that \<open>login\<close> always restores the auth mode it found. Starting in
  \<open>cookie\<close> mode against a server that refuses the POST to \<open>/_session\<close>, \<open>login\<close>
  fails with the transport's error and leaves the connection in \<open>basic\<close> mode.
\<close>

theorem login_cookie_post_failure:
  "auth (comm (fresh_connection auth_cookie)) = auth_cookie
   \<and> fst (login (fixed_server (\<lambda>_. Inl (error1 (other_error 401))) (\<lambda>_. Inr []))
            (fresh_connection auth_cookie)) = Inl (error1 (other_error 401))
   \<and> auth (comm (snd (login (fixed_server (\<lambda>_. Inl (error1 (other_error 401))) (\<lambda>_. Inr []))
            (fresh_connection auth_cookie)))) = auth_basic"
  by (simp add: login_def Let_def get_data_def set_auth_type_def record_event_def
      fixed_server_def fresh_connection_def)

subsection \<open>Database objects and confirmation\<close>

lemma constructions_confirmed_map:
  "(\<forall>n\<in>set ns. list_ex (confirms T n) seen) \<Longrightarrow>
     constructions_confirmed T seen (map Constructed ns)"
proof (induction ns arbitrary: seen)
  case Nil
  then show ?case by simp
next
  case (Cons n ns)
  have "\<forall>m\<in>set ns. list_ex (confirms T m) (seen @ [Constructed n])"
    using Cons.prems by simp
  then have "constructions_confirmed T (seen @ [Constructed n]) (map Constructed ns)"
    by (rule Cons.IH)
  with Cons.prems show ?case by simp
qed

lemma list_dbs_loop_trace:
  "trace (comm (snd (list_dbs_loop items dbs c))) =
     trace (comm c) @
     map Constructed (filter (\<lambda>s. \<not> prefix ''_'' s \<and> \<not> prefix ''shards/'' s) (map get_string items))"
  by (induction items arbitrary: dbs c)
     (simp_all add: find_char_zero find_str_zero construct_database_def)

lemma list_all_dbs_loop_trace:
  "trace (comm (snd (list_all_dbs_loop items dbs c))) =
     trace (comm c) @ map Constructed (map get_string items)"
  by (induction items arbitrary: dbs c) (simp_all add: construct_database_def)

lemma listing_confirms:
  "JString n \<in> set items \<Longrightarrow> confirms T n (Sent all_dbs_request (Inr (JArray items)))"
  by (simp add: confirms_def all_dbs_request_def mk_request_def)

lemma string_entry_listed:
  assumes "list_all is_string items" and "n \<in> set (map get_string items)"
  shows "JString n \<in> set items"
proof -
  from assms(2) obtain item where item: "item \<in> set items" "n = get_string item" by auto
  with assms(1) have "is_string item" by (simp add: list_all_iff)
  then have "item = JString (get_string item)" by (cases item) auto
  with item show ?thesis by simp
qed

lemma listed_names_confirmed:
  assumes "list_all is_string items" and "set ns \<subseteq> set (map get_string items)"
  shows "constructions_confirmed T [Sent all_dbs_request (Inr (JArray items))] (map Constructed ns)"
proof (rule constructions_confirmed_map)
  show "\<forall>n\<in>set ns. list_ex (confirms T n) [Sent all_dbs_request (Inr (JArray items))]"
  proof
    fix n
    assume "n \<in> set ns"
    with assms(2) have "n \<in> set (map get_string items)" by blast
    with assms(1) have "JString n \<in> set items" by (rule string_entry_listed)
    then have "confirms T n (Sent all_dbs_request (Inr (JArray items)))"
      by (rule listing_confirms)
    then show "list_ex (confirms T n) [Sent all_dbs_request (Inr (JArray items))]" by simp
  qed
qed

lemma list_dbs_added:
  "added c (snd (list_dbs T c)) =
     Sent all_dbs_request (respond T (comm c) all_dbs_request) #
     (case respond T (comm c) all_dbs_request of
        Inl e \<Rightarrow> []
      | Inr response \<Rightarrow>
          map Constructed (filter (\<lambda>s. \<not> prefix ''_'' s \<and> \<not> prefix ''shards/'' s)
                             (map get_string (get_array response))))"
proof (cases "respond T (comm c) all_dbs_request")
  case (Inl e)
  then show ?thesis
    by (simp add: list_dbs_def get_data_def Let_def all_dbs_request_def added_def)
next
  case (Inr response)
  show ?thesis
  proof (cases "is_array response")
    case True
    then obtain items where "response = JArray items" by (cases response) auto
    with Inr show ?thesis
      using list_dbs_loop_trace
        [of items "[]" "record_event (Sent all_dbs_request (Inr (JArray items))) c"]
      by (auto simp: list_dbs_def get_data_def Let_def all_dbs_request_def added_def
          split: prod.splits)
  next
    case False
    then have "get_array response = []" by (cases response) auto
    with Inr False show ?thesis
      by (simp add: list_dbs_def get_data_def Let_def all_dbs_request_def added_def)
  qed
qed

lemma list_all_dbs_added:
  "added c (snd (list_all_dbs T c)) =
     Sent all_dbs_request (respond T (comm c) all_dbs_request) #
     (case respond T (comm c) all_dbs_request of
        Inl e \<Rightarrow> []
      | Inr response \<Rightarrow> map Constructed (map get_string (get_array response)))"
proof (cases "respond T (comm c) all_dbs_request")
  case (Inl e)
  then show ?thesis
    by (simp add: list_all_dbs_def get_data_def Let_def all_dbs_request_def added_def)
next
  case (Inr response)
  show ?thesis
  proof (cases "is_array response")
    case True
    then obtain items where "response = JArray items" by (cases response) auto
    with Inr show ?thesis
      using list_all_dbs_loop_trace
        [of items "[]" "record_event (Sent all_dbs_request (Inr (JArray items))) c"]
      by (auto simp: list_all_dbs_def get_data_def Let_def all_dbs_request_def added_def
          split: prod.splits)
  next
    case False
    then have "get_array response = []" by (cases response) auto
    with Inr False show ?thesis
      by (simp add: list_all_dbs_def get_data_def Let_def all_dbs_request_def added_def)
  qed
qed


lemma get_db_added:
  "added c (snd (get_db T db c)) =
     (case respond_raw T (comm c) (head_request T db) of
        Inl e \<Rightarrow> [SentRaw (head_request T db) (Inl e)]
      | Inr raw \<Rightarrow> [SentRaw (head_request T db) (Inr raw), Constructed db])"
  by (simp add: get_db_result added_def split: sum.splits)

lemma head_confirms:
  "confirms T db (SentRaw (head_request T db) (Inr raw))"
  by (simp add: confirms_def head_request_def mk_request_def)

lemma put_confirms:
  "is_object j \<Longrightarrow> \<not> is_member j ''error'' \<Longrightarrow> member j ''ok'' = JBool True \<Longrightarrow>
     confirms T db (Sent (put_request T db) (Inr j))"
  by (simp add: confirms_def put_request_def mk_request_def)

lemma get_db_confirmed: "constructions_confirmed T [] (added c (snd (get_db T db c)))"
  by (simp add: get_db_added head_confirms split: sum.splits)

lemma create_db_confirmed: "constructions_confirmed T seen (added c (snd (create_db T db c)))"
  by (simp add: create_db_result added_def put_confirms split: sum.splits)

lemma ensure_db_exists_confirmed:
  "constructions_confirmed T [] (added c (snd (ensure_db_exists T db c)))"
proof (cases "respond_raw T (comm c) (head_request T db)")
  case (Inr raw)
  then show ?thesis
    by (simp add: ensure_db_exists_def get_db_result added_def head_confirms)
next
  case (Inl e)
  let ?c1 = "record_event (SentRaw (head_request T db) (Inl e)) c"
  show ?thesis
  proof (cases "etype e = content_not_found")
    case False
    with Inl show ?thesis
      by (simp add: ensure_db_exists_def get_db_result added_def)
  next
    case True
    have "added c (snd (create_db T db ?c1)) =
            SentRaw (head_request T db) (Inl e) # added ?c1 (snd (create_db T db ?c1))"
      by (simp add: create_db_result added_def split: sum.splits)
    moreover have "constructions_confirmed T [SentRaw (head_request T db) (Inl e)]
                     (added ?c1 (snd (create_db T db ?c1)))"
      by (rule create_db_confirmed)
    ultimately show ?thesis
      using Inl True by (simp add: ensure_db_exists_def get_db_result)
  qed
qed

lemma list_dbs_confirmed:
  assumes "listing_of_strings T c"
  shows "constructions_confirmed T [] (added c (snd (list_dbs T c)))"
proof (cases "respond T (comm c) all_dbs_request")
  case (Inl e)
  then show ?thesis by (simp add: list_dbs_added)
next
  case (Inr response)
  show ?thesis
  proof (cases response)
    case (JArray items)
    with Inr assms have "list_all is_string items" by (simp add: listing_of_strings_def)
    then have "constructions_confirmed T [Sent all_dbs_request (Inr (JArray items))]
        (map Constructed (filter (\<lambda>s. \<not> prefix ''_'' s \<and> \<not> prefix ''shards/'' s)
                            (map get_string items)))"
      by (rule listed_names_confirmed) auto
    with Inr JArray show ?thesis by (simp add: list_dbs_added)
  qed (use Inr in \<open>simp_all add: list_dbs_added\<close>)
qed

lemma list_all_dbs_confirmed:
  assumes "listing_of_strings T c"
  shows "constructions_confirmed T [] (added c (snd (list_all_dbs T c)))"
proof (cases "respond T (comm c) all_dbs_request")
  case (Inl e)
  then show ?thesis by (simp add: list_all_dbs_added)
next
  case (Inr response)
  show ?thesis
  proof (cases response)
    case (JArray items)
    with Inr assms have "list_all is_string items" by (simp add: listing_of_strings_def)
    then have "constructions_confirmed T [Sent all_dbs_request (Inr (JArray items))]
        (map Constructed (map get_string items))"
      by (rule listed_names_confirmed) simp
    with Inr JArray show ?thesis by (simp add: list_all_dbs_added del: map_map)
  qed (use Inr in \<open>simp_all add: list_all_dbs_added\<close>)
qed

lemma db_exists_added:
  "added c (snd (db_exists T db c)) =
     [Constructed db,
      SentRaw (head_request T db)
        (respond_raw T (comm (record_event (Constructed db) c)) (head_request T db))]"
  by (simp add: db_exists_def construct_database_def database_exists_def get_raw_data_def
      Let_def head_request_def added_def split: sum.splits)

text \<open>
  C9, as stated, fails: \<open>db_exists\<close> constructs the database object first and asks
  the server afterwards, so its construction follows no confirmation.
\<close>

theorem db_exists_constructs_first_counterexample:
  "added (fresh_connection auth_none)
     (snd (db_exists (fixed_server (\<lambda>_. Inr JNull) (\<lambda>_. Inr [])) ''db'' (fresh_connection auth_none)))
     = [Constructed ''db'', SentRaw (mk_request ''/db'' ''HEAD'' [] False) (Inr [])]
   \<and> \<not> constructions_confirmed (fixed_server (\<lambda>_. Inr JNull) (\<lambda>_. Inr [])) []
         (added (fresh_connection auth_none)
            (snd (db_exists (fixed_server (\<lambda>_. Inr JNull) (\<lambda>_. Inr [])) ''db''
                    (fresh_connection auth_none))))"
  by (simp add: db_exists_added head_request_def fixed_server_def)

text \<open>
  C9, amended. In \<open>get_db\<close>, \<open>create_db\<close> and \<open>ensure_db_exists\<close> every construction of
  a database object comes after an event of the same call that confirms the name: a
  successful HEAD or a successful creation. In \<open>list_dbs\<close> and \<open>list_all_dbs\<close>, when
  the entries of the listing are strings, every construction comes after the listing
  that has the name among its entries. \<open>db_exists\<close> constructs a database object for
  the name before anything is sent and checks through it.
\<close>

theorem database_constructions_confirmed:
  "constructions_confirmed T [] (added c (snd (get_db T db c)))
   \<and> constructions_confirmed T [] (added c (snd (create_db T db c)))
   \<and> constructions_confirmed T [] (added c (snd (ensure_db_exists T db c)))
   \<and> (listing_of_strings T c \<longrightarrow> constructions_confirmed T [] (added c (snd (list_dbs T c))))
   \<and> (listing_of_strings T c \<longrightarrow> constructions_confirmed T [] (added c (snd (list_all_dbs T c))))
   \<and> added c (snd (db_exists T db c)) =
        [Constructed db,
         SentRaw (head_request T db)
           (respond_raw T (comm (record_event (Constructed db) c)) (head_request T db))]"
  using get_db_confirmed [of T c db] create_db_confirmed [of T "[]" c db]
    ensure_db_exists_confirmed [of T c db] list_dbs_confirmed [of T c]
    list_all_dbs_confirmed [of T c] db_exists_added [of c T db]
  by blast

text \<open>
  The events of \<open>get_db\<close> on an existing database, and those of \<open>list_all_dbs\<close> and
  \<open>list_dbs\<close> on a listing of two names; each construction has its confirmation before
  it. A listing with an entry that is no string names nothing by that entry.
\<close>

theorem database_constructions_confirmed_witness:
  "added (fresh_connection auth_none)
     (snd (get_db (fixed_server (\<lambda>_. Inr JNull) (\<lambda>_. Inr [])) ''db'' (fresh_connection auth_none)))
     = [SentRaw (mk_request ''/db'' ''HEAD'' [] False) (Inr []), Constructed ''db'']
   \<and> constructions_confirmed (fixed_server (\<lambda>_. Inr JNull) (\<lambda>_. Inr [])) []
        [SentRaw (mk_request ''/db'' ''HEAD'' [] False) (Inr []), Constructed ''db'']
   \<and> listing_of_strings
        (fixed_server (\<lambda>_. Inr (JArray [JString ''_users'', JString ''alpha''])) (\<lambda>_. Inr []))
        (fresh_connection auth_none)
   \<and> added (fresh_connection auth_none)
        (snd (list_all_dbs (fixed_server (\<lambda>_. Inr (JArray [JString ''_users'', JString ''alpha'']))
                 (\<lambda>_. Inr [])) (fresh_connection auth_none)))
     = [Sent all_dbs_request (Inr (JArray [JString ''_users'', JString ''alpha''])),
        Constructed ''_users'', Constructed ''alpha'']
   \<and> constructions_confirmed
        (fixed_server (\<lambda>_. Inr (JArray [JString ''_users'', JString ''alpha''])) (\<lambda>_. Inr [])) []
        [Sent all_dbs_request (Inr (JArray [JString ''_users'', JString ''alpha''])),
         Constructed ''_users'', Constructed ''alpha'']
   \<and> added (fresh_connection auth_none)
        (snd (list_dbs (fixed_server (\<lambda>_. Inr (JArray [JString ''_users'', JString ''alpha'']))
                 (\<lambda>_. Inr [])) (fresh_connection auth_none)))
     = [Sent all_dbs_request (Inr (JArray [JString ''_users'', JString ''alpha''])),
        Constructed ''alpha'']
   \<and> constructions_confirmed
        (fixed_server (\<lambda>_. Inr (JArray [JString ''_users'', JString ''alpha''])) (\<lambda>_. Inr [])) []
        [Sent all_dbs_request (Inr (JArray [JString ''_users'', JString ''alpha''])),
         Constructed ''alpha'']
   \<and> \<not> confirms (fixed_server (\<lambda>_. Inr (JArray [JNull])) (\<lambda>_. Inr [])) []
          (Sent all_dbs_request (Inr (JArray [JNull])))"
proof -
  define L where
    "L = fixed_server (\<lambda>_. Inr (JArray [JString ''_users'', JString ''alpha''])) (\<lambda>_. Inr [])"
  define c0 where "c0 = fresh_connection auth_none"
  have a: "added (fresh_connection auth_none)
     (snd (get_db (fixed_server (\<lambda>_. Inr JNull) (\<lambda>_. Inr [])) ''db'' (fresh_connection auth_none)))
     = [SentRaw (mk_request ''/db'' ''HEAD'' [] False) (Inr []), Constructed ''db'']"
    by (simp add: get_db_added head_request_def fixed_server_def)
  have h: "listing_of_strings L c0"
    by (simp add: L_def listing_of_strings_def fixed_server_def)
  have b: "added c0 (snd (list_all_dbs L c0))
     = [Sent all_dbs_request (Inr (JArray [JString ''_users'', JString ''alpha''])),
        Constructed ''_users'', Constructed ''alpha'']"
    by (simp add: L_def list_all_dbs_added fixed_server_def)
  have d: "added c0 (snd (list_dbs L c0))
     = [Sent all_dbs_request (Inr (JArray [JString ''_users'', JString ''alpha''])),
        Constructed ''alpha'']"
    by (simp add: L_def list_dbs_added fixed_server_def)
  have n: "\<not> confirms (fixed_server (\<lambda>_. Inr (JArray [JNull])) (\<lambda>_. Inr [])) []
          (Sent all_dbs_request (Inr (JArray [JNull])))"
    by (simp add: confirms_def all_dbs_request_def mk_request_def fixed_server_def)
  note g = database_constructions_confirmed
            [of "fixed_server (\<lambda>_. Inr JNull) (\<lambda>_. Inr [])" "fresh_connection auth_none" "''db''"]
  note l = database_constructions_confirmed [of L c0 "''db''"]
  from g have g1: "constructions_confirmed (fixed_server (\<lambda>_. Inr JNull) (\<lambda>_. Inr [])) []
        [SentRaw (mk_request ''/db'' ''HEAD'' [] False) (Inr []), Constructed ''db'']"
    unfolding a by blast
  from l h have l1: "constructions_confirmed L []
        [Sent all_dbs_request (Inr (JArray [JString ''_users'', JString ''alpha''])),
         Constructed ''_users'', Constructed ''alpha'']"
    unfolding b by blast
  from l h have l2: "constructions_confirmed L []
        [Sent all_dbs_request (Inr (JArray [JString ''_users'', JString ''alpha''])),
         Constructed ''alpha'']"
    unfolding d by blast
  from a g1 h b l1 d l2 n show ?thesis
    unfolding L_def c0_def by blast
qed

end
